theory Spec2Isabelle
  imports Complex_Main
begin

section \<open>JavaScript values\<close>

text \<open>
  A JavaScript string is a sequence of UTF-16 code units; a code unit is modelled by its
  numeric value. \<open>str\<close> embeds an ASCII literal. The two non-ASCII characters of the
  source are the rupee sign U+20B9 and the bullet U+2022.
\<close>

type_synonym jstring = "nat list"

definition str :: "string \<Rightarrow> jstring" where
  "str s = map of_char s"

definition rupee :: nat where
  "rupee = 8377"

definition bullet :: nat where
  "bullet = 8226"

text \<open>
  A JavaScript number is NaN, an infinity or a finite value. Finite values are modelled by
  the real number they denote: the rounding and the range of IEEE doubles and the sign of
  zero are not modelled.
\<close>

datatype number = NaN | PosInf | NegInf | Fin real

fun nneg :: "number \<Rightarrow> number" where
  "nneg NaN = NaN"
| "nneg PosInf = NegInf"
| "nneg NegInf = PosInf"
| "nneg (Fin x) = Fin (- x)"

fun nadd :: "number \<Rightarrow> number \<Rightarrow> number" where
  "nadd (Fin x) (Fin y) = Fin (x + y)"
| "nadd NaN b = NaN"
| "nadd a NaN = NaN"
| "nadd PosInf NegInf = NaN"
| "nadd NegInf PosInf = NaN"
| "nadd PosInf b = PosInf"
| "nadd NegInf b = NegInf"
| "nadd (Fin x) b = b"

definition nsub :: "number \<Rightarrow> number \<Rightarrow> number" where
  "nsub a b = nadd a (nneg b)"

fun npositive :: "number \<Rightarrow> bool" where
  "npositive (Fin x) = (0 < x)"
| "npositive PosInf = True"
| "npositive NegInf = False"
| "npositive NaN = False"

fun nmul :: "number \<Rightarrow> number \<Rightarrow> number" where
  "nmul (Fin x) (Fin y) = Fin (x * y)"
| "nmul NaN b = NaN"
| "nmul a NaN = NaN"
| "nmul a b =
     (if a = Fin 0 \<or> b = Fin 0 then NaN
      else if npositive a = npositive b then PosInf else NegInf)"

text \<open>Division by a zero yields an infinity with the sign of the dividend (the zero is read as +0).\<close>

fun ndiv :: "number \<Rightarrow> number \<Rightarrow> number" where
  "ndiv (Fin x) (Fin y) =
     (if y \<noteq> 0 then Fin (x / y)
      else if x = 0 then NaN else if 0 < x then PosInf else NegInf)"
| "ndiv NaN b = NaN"
| "ndiv a NaN = NaN"
| "ndiv (Fin x) b = Fin 0"
| "ndiv a (Fin y) = (if npositive a = (0 \<le> y) then PosInf else NegInf)"
| "ndiv a b = NaN"

fun nabs :: "number \<Rightarrow> number" where
  "nabs NaN = NaN"
| "nabs PosInf = PosInf"
| "nabs NegInf = PosInf"
| "nabs (Fin x) = Fin \<bar>x\<bar>"

text \<open>The relational operators \<open><\<close> and \<open>>\<close>: false as soon as one side is NaN.\<close>

fun nless :: "number \<Rightarrow> number \<Rightarrow> bool" where
  "nless (Fin x) (Fin y) = (x < y)"
| "nless NaN b = False"
| "nless a NaN = False"
| "nless a NegInf = False"
| "nless PosInf b = False"
| "nless NegInf b = True"
| "nless (Fin x) PosInf = True"

definition ngreater :: "number \<Rightarrow> number \<Rightarrow> bool" where
  "ngreater a b = nless b a"

text \<open>\<open>Math.max\<close> and \<open>Math.min\<close> of two arguments.\<close>

definition Math_max :: "number \<Rightarrow> number \<Rightarrow> number" where
  "Math_max a b = (if a = NaN \<or> b = NaN then NaN else if nless a b then b else a)"

definition Math_min :: "number \<Rightarrow> number \<Rightarrow> number" where
  "Math_min a b = (if a = NaN \<or> b = NaN then NaN else if nless b a then b else a)"

text \<open>Truthiness of a number, as \<open>x || 0\<close> and \<open>if (x)\<close> read it.\<close>

fun ntruthy :: "number \<Rightarrow> bool" where
  "ntruthy NaN = False"
| "ntruthy (Fin x) = (x \<noteq> 0)"
| "ntruthy a = True"

text \<open>
  \<open>parseFloat(x.toFixed(2))\<close>: \<open>toFixed\<close> picks the integer \<open>n\<close> with \<open>n / 100\<close>
  closest to \<open>|x|\<close>, the larger one on a tie, and keeps the sign; NaN and the infinities
  print as themselves and parse back, and a magnitude of at least \<open>10^21\<close> is printed
  by \<open>ToString\<close> and parses back to the same number.
\<close>

fun parseFloat_toFixed2 :: "number \<Rightarrow> number" where
  "parseFloat_toFixed2 (Fin x) =
     (if 10 ^ 21 \<le> \<bar>x\<bar> then Fin x
      else if x < 0 then Fin (- (real_of_int \<lfloor>\<bar>x\<bar> * 100 + 1 / 2\<rfloor> / 100))
      else Fin (real_of_int \<lfloor>\<bar>x\<bar> * 100 + 1 / 2\<rfloor> / 100))"
| "parseFloat_toFixed2 a = a"

subsection \<open>Character classes\<close>

definition isDigit :: "nat \<Rightarrow> bool" where
  "isDigit c = (48 \<le> c \<and> c \<le> 57)"

definition isLineTerminator :: "nat \<Rightarrow> bool" where
  "isLineTerminator c = (c = 10 \<or> c = 13 \<or> c = 8232 \<or> c = 8233)"

text \<open>The class \<open>\s\<close> (and what \<open>trim\<close> strips): white space and line terminators.\<close>

definition isSpace :: "nat \<Rightarrow> bool" where
  "isSpace c = (c = 9 \<or> c = 11 \<or> c = 12 \<or> c = 32 \<or> c = 160 \<or> c = 5760
     \<or> (8192 \<le> c \<and> c \<le> 8202) \<or> c = 8239 \<or> c = 8287 \<or> c = 12288 \<or> c = 65279
     \<or> isLineTerminator c)"

text \<open>
  Case folding of the \<open>i\<close> flag and \<open>toUpperCase\<close>, on ASCII letters. Code units
  outside ASCII are left as they are: the Unicode case tables are not modelled. For the
  \<open>i\<close> flag this is exact on the patterns below, whose literal characters are ASCII or
  the rupee sign: no code unit outside ASCII folds to one of them.
\<close>

definition upperChar :: "nat \<Rightarrow> nat" where
  "upperChar c = (if 97 \<le> c \<and> c \<le> 122 then c - 32 else c)"

definition toUpperCase :: "jstring \<Rightarrow> jstring" where
  "toUpperCase s = map upperChar s"

subsection \<open>Regular expressions\<close>

text \<open>
  The regular expressions of the source are sequences of single-character atoms under a
  quantifier, with capturing groups around runs of them. The matcher is the backtracking
  matcher of ECMAScript on this fragment: a greedy quantifier tries the longer match
  first, the lazy star \<open>*?\<close> the shorter one first.
\<close>

datatype cls = CChr nat | CDigit | CSpace

datatype atom = One cls | Dot | Bracket "cls list"

datatype quant = Once | Opt | Star | Plus | LazyStar

datatype item = Atom atom quant | GroupOpen | GroupClose

fun cls_matches :: "bool \<Rightarrow> cls \<Rightarrow> nat \<Rightarrow> bool" where
  "cls_matches ic (CChr p) c = (if ic then upperChar c = upperChar p else c = p)"
| "cls_matches ic CDigit c = isDigit c"
| "cls_matches ic CSpace c = isSpace c"

fun atom_matches :: "bool \<Rightarrow> atom \<Rightarrow> nat \<Rightarrow> bool" where
  "atom_matches ic (One k) c = cls_matches ic k c"
| "atom_matches ic Dot c = (\<not> isLineTerminator c)"
| "atom_matches ic (Bracket ks) c = list_ex (\<lambda>k. cls_matches ic k c) ks"

text \<open>
  \<open>rmatch ic re s p os cs\<close> matches the items \<open>re\<close> against the input \<open>s\<close> that starts
  at index \<open>p\<close>; \<open>os\<close> is the stack of the start indices of the open groups and \<open>cs\<close>
  the index ranges of the groups closed so far. The result is the end index and the
  captures, or None when every alternative fails.
\<close>

fun rmatch :: "bool \<Rightarrow> item list \<Rightarrow> jstring \<Rightarrow> nat \<Rightarrow> nat list \<Rightarrow> (nat \<times> nat) list
    \<Rightarrow> (nat \<times> (nat \<times> nat) list) option" where
  "rmatch ic [] s p os cs = Some (p, cs)"
| "rmatch ic (GroupOpen # re) s p os cs = rmatch ic re s p (p # os) cs"
| "rmatch ic (GroupClose # re) s p [] cs = None"
| "rmatch ic (GroupClose # re) s p (b # os) cs = rmatch ic re s p os (cs @ [(b, p)])"
| "rmatch ic (Atom a Once # re) [] p os cs = None"
| "rmatch ic (Atom a Once # re) (c # s) p os cs =
     (if atom_matches ic a c then rmatch ic re s (Suc p) os cs else None)"
| "rmatch ic (Atom a Opt # re) [] p os cs = rmatch ic re [] p os cs"
| "rmatch ic (Atom a Opt # re) (c # s) p os cs =
     (if atom_matches ic a c
      then (case rmatch ic re s (Suc p) os cs of
              Some r \<Rightarrow> Some r
            | None \<Rightarrow> rmatch ic re (c # s) p os cs)
      else rmatch ic re (c # s) p os cs)"
| "rmatch ic (Atom a Star # re) [] p os cs = rmatch ic re [] p os cs"
| "rmatch ic (Atom a Star # re) (c # s) p os cs =
     (if atom_matches ic a c
      then (case rmatch ic (Atom a Star # re) s (Suc p) os cs of
              Some r \<Rightarrow> Some r
            | None \<Rightarrow> rmatch ic re (c # s) p os cs)
      else rmatch ic re (c # s) p os cs)"
| "rmatch ic (Atom a Plus # re) [] p os cs = None"
| "rmatch ic (Atom a Plus # re) (c # s) p os cs =
     (if atom_matches ic a c then rmatch ic (Atom a Star # re) s (Suc p) os cs else None)"
| "rmatch ic (Atom a LazyStar # re) [] p os cs = rmatch ic re [] p os cs"
| "rmatch ic (Atom a LazyStar # re) (c # s) p os cs =
     (case rmatch ic re (c # s) p os cs of
        Some r \<Rightarrow> Some r
      | None \<Rightarrow>
          (if atom_matches ic a c then rmatch ic (Atom a LazyStar # re) s (Suc p) os cs
           else None))"

text \<open>The leftmost start index at which the expression matches.\<close>

fun search_from :: "bool \<Rightarrow> item list \<Rightarrow> jstring \<Rightarrow> nat
    \<Rightarrow> (nat \<times> nat \<times> (nat \<times> nat) list) option" where
  "search_from ic re [] k =
     (case rmatch ic re [] k [] [] of Some (e, cs) \<Rightarrow> Some (k, e, cs) | None \<Rightarrow> None)"
| "search_from ic re (c # s) k =
     (case rmatch ic re (c # s) k [] [] of
        Some (e, cs) \<Rightarrow> Some (k, e, cs)
      | None \<Rightarrow> search_from ic re s (Suc k))"

definition substring :: "jstring \<Rightarrow> nat \<Rightarrow> nat \<Rightarrow> jstring" where
  "substring s b e = take (e - b) (drop b s)"

text \<open>
  \<open>content.match(re)\<close> for an expression without the \<open>g\<close> flag: null, or the array
  of the whole match followed by the captured groups.
\<close>

definition match_js :: "bool \<Rightarrow> item list \<Rightarrow> jstring \<Rightarrow> jstring list option" where
  "match_js ic re s =
     (case search_from ic re s 0 of
        None \<Rightarrow> None
      | Some (k, e, cs) \<Rightarrow> Some (substring s k e # map (\<lambda>(b, e'). substring s b e') cs))"

definition lit :: "string \<Rightarrow> item list" where
  "lit s = map (\<lambda>c. Atom (One (CChr (of_char c))) Once) s"

subsection \<open>parseFloat and parseInt\<close>

definition digitsValue :: "jstring \<Rightarrow> nat" where
  "digitsValue ds = foldl (\<lambda>a c. 10 * a + (c - 48)) 0 ds"

definition startsWith :: "jstring \<Rightarrow> jstring \<Rightarrow> bool" where
  "startsWith s p = (take (length p) s = p)"

text \<open>
  The exponent part of a decimal literal, read off the text after the mantissa: \<open>e\<close> or
  \<open>E\<close>, an optional sign and at least one digit; 0 when the text has no such prefix.
\<close>

definition exponentPart :: "jstring \<Rightarrow> int" where
  "exponentPart r =
     (case r of
        [] \<Rightarrow> 0
      | c # r1 \<Rightarrow>
          if c = of_char CHR ''e'' \<or> c = of_char CHR ''E'' then
            (let neg = startsWith r1 (str ''-'');
                 r2 = (if startsWith r1 (str ''+'') \<or> neg then tl r1 else r1);
                 es = takeWhile isDigit r2
             in if es = [] then 0
                else if neg then - int (digitsValue es) else int (digitsValue es))
          else 0)"

definition scale10 :: "real \<Rightarrow> int \<Rightarrow> real" where
  "scale10 m e = (if 0 \<le> e then m * 10 ^ nat e else m / 10 ^ nat (- e))"

text \<open>
  \<open>parseFloat\<close>: leading white space is skipped; the longest prefix that is a signed
  decimal literal (or a signed \<open>Infinity\<close>) is read; NaN when there is none.
\<close>

definition parseFloat :: "jstring \<Rightarrow> number" where
  "parseFloat s =
     (let t = dropWhile isSpace s;
          neg = startsWith t (str ''-'');
          u = (if startsWith t (str ''+'') \<or> neg then tl t else t)
      in if startsWith u (str ''Infinity'') then (if neg then NegInf else PosInf)
         else
           (let ds = takeWhile isDigit u;
                r1 = dropWhile isDigit u;
                dot = startsWith r1 (str ''.'');
                fs = (if dot then takeWhile isDigit (tl r1) else []);
                r2 = (if dot then dropWhile isDigit (tl r1) else r1)
            in if ds = [] \<and> fs = [] then NaN
               else
                 (let m = scale10 (real (digitsValue (ds @ fs))) (- int (length fs));
                      v = scale10 m (exponentPart r2)
                  in Fin (if neg then - v else v))))"

definition hexValue :: "nat \<Rightarrow> nat option" where
  "hexValue c =
     (if isDigit c then Some (c - 48)
      else if 97 \<le> c \<and> c \<le> 102 then Some (c - 87)
      else if 65 \<le> c \<and> c \<le> 70 then Some (c - 55)
      else None)"

text \<open>
  \<open>parseInt\<close> without a radix: white space, a sign, then base 16 after \<open>0x\<close> or
  \<open>0X\<close> and base 10 otherwise; the longest run of digits is read; NaN when it is empty.
\<close>

definition parseInt :: "jstring \<Rightarrow> number" where
  "parseInt s =
     (let t = dropWhile isSpace s;
          neg = startsWith t (str ''-'');
          u = (if startsWith t (str ''+'') \<or> neg then tl t else t);
          hex = (startsWith u (str ''0x'') \<or> startsWith u (str ''0X''));
          ds = (if hex then takeWhile (\<lambda>c. hexValue c \<noteq> None) (drop 2 u)
                else takeWhile isDigit u);
          v = (if hex then foldl (\<lambda>a c. 16 * a + the (hexValue c)) 0 ds
               else digitsValue ds)
      in if ds = [] then NaN else Fin (if neg then - real v else real v))"

text \<open>\<open>s.replace(/,/g, '')\<close>\<close>

definition removeCommas :: "jstring \<Rightarrow> jstring" where
  "removeCommas s = filter (\<lambda>c. c \<noteq> of_char CHR '','') s"

subsection \<open>Parsed JSON and exceptions\<close>

text \<open>
  The value \<open>response.json()\<close> resolves to. An object is the list of its members (after
  parsing, each key occurs once). A property that is absent reads as \<open>undefined\<close>, the
  value None of \<open>json option\<close>.
\<close>

datatype json = JNull | JBool bool | JNum number | JStr jstring | JArr "json list"
  | JObj "(jstring \<times> json) list"

datatype error = TypeError | NetworkError | HttpError nat | SyntaxError | QueryError

datatype jstype = TUndefined | TObject | TBoolean | TNumber | TString

fun typeof :: "json option \<Rightarrow> jstype" where
  "typeof None = TUndefined"
| "typeof (Some JNull) = TObject"
| "typeof (Some (JBool b)) = TBoolean"
| "typeof (Some (JNum n)) = TNumber"
| "typeof (Some (JStr s)) = TString"
| "typeof (Some (JArr xs)) = TObject"
| "typeof (Some (JObj kvs)) = TObject"

fun truthy :: "json option \<Rightarrow> bool" where
  "truthy None = False"
| "truthy (Some JNull) = False"
| "truthy (Some (JBool b)) = b"
| "truthy (Some (JNum n)) = ntruthy n"
| "truthy (Some (JStr s)) = (s \<noteq> [])"
| "truthy (Some (JArr xs)) = True"
| "truthy (Some (JObj kvs)) = True"

text \<open>
  \<open>v.answer\<close>: reading a property of \<open>null\<close> or \<open>undefined\<close> throws a TypeError; a
  primitive or an array has no property \<open>answer\<close>.
\<close>

fun getAnswer :: "json option \<Rightarrow> error + json option" where
  "getAnswer None = Inl TypeError"
| "getAnswer (Some JNull) = Inl TypeError"
| "getAnswer (Some (JObj kvs)) = Inr (map_of kvs (str ''answer''))"
| "getAnswer (Some v) = Inr None"

text \<open>\<open>'answer' in v\<close>, for a value \<open>v\<close> whose \<open>typeof\<close> is \<open>object\<close> and that is truthy.\<close>

fun hasAnswer :: "json option \<Rightarrow> bool" where
  "hasAnswer (Some (JObj kvs)) = (map_of kvs (str ''answer'') \<noteq> None)"
| "hasAnswer v = False"

text \<open>
  \<open>content.match(re)\<close> on a value \<open>content\<close> of any type: only a string has the method
  \<open>match\<close>; on every other value the call throws a TypeError.
\<close>

fun match_any :: "json option \<Rightarrow> bool \<Rightarrow> item list \<Rightarrow> error + jstring list option" where
  "match_any (Some (JStr s)) ic re = Inr (match_js ic re s)"
| "match_any v ic re = Inl TypeError"

section \<open>Stock data service\<close>

text \<open>
  \<open>open_price\<close> is the field \<open>open\<close> of the source. \<open>last_updated\<close> holds the instant
  of \<open>new Date()\<close> in milliseconds; its ISO text is not modelled.
\<close>

record StockPrice =
  symbol :: jstring
  name :: jstring
  current_price :: number
  change :: number
  change_percent :: number
  previous_close :: number
  open_price :: number
  high :: number
  low :: number
  volume :: number
  market_cap :: jstring
  last_updated :: int

definition companyNames :: "(jstring \<times> jstring) list" where
  "companyNames =
     [(str ''AAPL'', str ''Apple Inc.''),
      (str ''GOOGL'', str ''Alphabet Inc.''),
      (str ''MSFT'', str ''Microsoft Corporation''),
      (str ''AMZN'', str ''Amazon.com Inc.''),
      (str ''TSLA'', str ''Tesla Inc.''),
      (str ''META'', str ''Meta Platforms Inc.''),
      (str ''NVDA'', str ''NVIDIA Corporation''),
      (str ''NFLX'', str ''Netflix Inc.''),
      (str ''UBER'', str ''Uber Technologies Inc.''),
      (str ''SPOT'', str ''Spotify Technology S.A.''),
      (str ''RELIANCE'', str ''Reliance Industries Ltd.''),
      (str ''TCS'', str ''Tata Consultancy Services Ltd.''),
      (str ''INFY'', str ''Infosys Ltd.''),
      (str ''HDFC'', str ''HDFC Bank Ltd.''),
      (str ''ICICI'', str ''ICICI Bank Ltd.''),
      (str ''SBI'', str ''State Bank of India'')]"

definition getCompanyName :: "jstring \<Rightarrow> jstring" where
  "getCompanyName sy =
     (case map_of companyNames (toUpperCase sy) of
        Some n \<Rightarrow> n
      | None \<Rightarrow> toUpperCase sy @ str '' Corp.'')"

text \<open>The four labelled-field expressions of \<open>parseStockResponse\<close>, all with the \<open>i\<close> flag.\<close>

definition amount :: "item list" where
  "amount =
     [Atom (Bracket [CDigit, CChr (of_char CHR '','')]) Plus,
      Atom (One (CChr (of_char CHR ''.''))) Opt,
      Atom (One CDigit) Star]"

definition sign :: item where
  "sign = Atom (Bracket [CChr (of_char CHR ''+''), CChr (of_char CHR ''-'')]) Opt"

definition priceRe :: "item list" where
  "priceRe =
     lit ''Current Price'' @ [Atom Dot LazyStar, Atom (One (CChr rupee)) Once]
     @ [GroupOpen] @ amount @ [GroupClose]"

definition changeRe :: "item list" where
  "changeRe =
     lit ''Change'' @ [Atom Dot LazyStar, Atom (One (CChr rupee)) Once]
     @ [GroupOpen, sign] @ amount @ [GroupClose]
     @ [Atom (One CSpace) Star, Atom (One (CChr (of_char CHR ''(''))) Once]
     @ [GroupOpen, sign, Atom (Bracket [CDigit, CChr (of_char CHR ''.'')]) Plus, GroupClose]
     @ [Atom (One (CChr (of_char CHR ''%''))) Once, Atom (One (CChr (of_char CHR '')''))) Once]"

definition previousCloseRe :: "item list" where
  "previousCloseRe =
     lit ''Previous Close'' @ [Atom Dot LazyStar, Atom (One (CChr rupee)) Once]
     @ [GroupOpen] @ amount @ [GroupClose]"

definition volumeRe :: "item list" where
  "volumeRe =
     lit ''Volume'' @ [Atom Dot LazyStar]
     @ [GroupOpen, Atom (Bracket [CDigit, CChr (of_char CHR '','')]) Plus, GroupClose]"

text \<open>
  The part of \<open>parseStockResponse\<close> after \<open>content\<close> is assigned. Each \<open>match\<close> call
  can throw (when \<open>content\<close> is not a string), so the four calls are sequenced.
\<close>

definition parseContent :: "json option \<Rightarrow> jstring \<Rightarrow> int \<Rightarrow> error + StockPrice option" where
  "parseContent content sy now =
     (case match_any content True priceRe of Inl e \<Rightarrow> Inl e | Inr priceMatch \<Rightarrow>
      case match_any content True changeRe of Inl e \<Rightarrow> Inl e | Inr changeMatch \<Rightarrow>
      case match_any content True previousCloseRe of Inl e \<Rightarrow> Inl e | Inr previousCloseMatch \<Rightarrow>
      case match_any content True volumeRe of Inl e \<Rightarrow> Inl e | Inr volumeMatch \<Rightarrow>
      (case priceMatch of
         None \<Rightarrow> Inr None
       | Some pm \<Rightarrow>
           (let currentPrice = parseFloat (removeCommas (pm ! 1));
                change = (case changeMatch of
                            Some cm \<Rightarrow> parseFloat (removeCommas (cm ! 1))
                          | None \<Rightarrow> Fin 0);
                changePercent = (case changeMatch of
                                   Some cm \<Rightarrow> parseFloat (cm ! 2)
                                 | None \<Rightarrow> Fin 0);
                previousClose = (case previousCloseMatch of
                                   Some qm \<Rightarrow> parseFloat (removeCommas (qm ! 1))
                                 | None \<Rightarrow> nsub currentPrice change);
                volume = (case volumeMatch of
                            Some vm \<Rightarrow> parseInt (removeCommas (vm ! 1))
                          | None \<Rightarrow> Fin 0)
            in Inr (Some \<lparr>symbol = toUpperCase sy,
                           name = getCompanyName sy,
                           current_price = currentPrice,
                           change = change,
                           change_percent = changePercent,
                           previous_close = previousClose,
                           open_price = previousClose,
                           high = nadd currentPrice (nabs change),
                           low = nsub currentPrice (nabs change),
                           volume = volume,
                           market_cap = str ''N/A'',
                           last_updated = now\<rparr>))))"

text \<open>The body of the \<open>try\<close> block: the choice of \<open>content\<close>, then the parse.\<close>

definition parseStockResponse_body :: "json \<Rightarrow> jstring \<Rightarrow> int \<Rightarrow> error + StockPrice option" where
  "parseStockResponse_body response sy now =
     (case getAnswer (Some response) of
        Inl e \<Rightarrow> Inl e
      | Inr answer \<Rightarrow>
          if truthy answer \<and> typeof answer = TObject \<and> hasAnswer answer then
            (case getAnswer answer of
               Inl e \<Rightarrow> Inl e
             | Inr content \<Rightarrow> parseContent content sy now)
          else if truthy answer \<and> typeof answer = TString then
            parseContent answer sy now
          else Inr None)"

text \<open>\<open>parseStockResponse\<close>: the \<open>catch\<close> clause turns every exception into null.\<close>

definition parseStockResponse :: "json \<Rightarrow> jstring \<Rightarrow> int \<Rightarrow> StockPrice option" where
  "parseStockResponse response sy now =
     (case parseStockResponse_body response sy now of
        Inl e \<Rightarrow> None
      | Inr r \<Rightarrow> r)"

subsection \<open>getStockPrice: cache, pending requests and the network\<close>

text \<open>
  The runtime is single-threaded: an \<open>async\<close> function runs without interruption up to
  its next \<open>await\<close>. The service is therefore modelled by a state and two atomic steps:
  the call of \<open>getStockPrice\<close> (up to its first \<open>await\<close>), and the arrival of the
  network's answer to one request (the rest of \<open>fetchStockData\<close>, followed by the
  resumption of every call that awaits its promise). Time is \<open>Date.now()\<close> in
  milliseconds.

  A promise of \<open>fetchStockData\<close> is identified by the number of requests issued before
  it. \<open>issued\<close> logs the symbol of every network request, \<open>inflight\<close> maps an
  unsettled promise to its symbol, \<open>awaiting\<close> lists the suspended calls (caller,
  promise, symbol, and whether the call created the promise and so runs the \<open>finally\<close>
  block), and \<open>returned\<close> holds the value each caller's promise resolved to.
\<close>

record world =
  cache :: "jstring \<Rightarrow> (StockPrice \<times> int) option"
  pendingRequests :: "jstring \<Rightarrow> nat option"
  issued :: "jstring list"
  inflight :: "nat \<Rightarrow> jstring option"
  awaiting :: "(nat \<times> nat \<times> jstring \<times> bool) list"
  returned :: "nat \<Rightarrow> StockPrice option option"

definition CACHE_DURATION :: int where
  "CACHE_DURATION = 120000"

text \<open>The cache test of \<open>getStockPrice\<close>: an entry exists and is younger than the duration.\<close>

definition fresh :: "world \<Rightarrow> jstring \<Rightarrow> int \<Rightarrow> bool" where
  "fresh w sy now =
     (case cache w sy of
        None \<Rightarrow> False
      | Some (d, timestamp) \<Rightarrow> now - timestamp < CACHE_DURATION)"

text \<open>
  \<open>getStockPrice\<close> up to its first \<open>await\<close>. With a fresh cache entry it returns
  the cached data at once (a fresh entry exists, so the branch \<open>None\<close> of the lookup is
  never taken). Otherwise it joins the pending promise of the symbol or, when there is
  none, calls \<open>fetchStockData\<close>, which runs up to \<open>await fetch(...)\<close> and so issues
  the network request, and stores the promise as pending.
\<close>

definition getStockPrice_call :: "world \<Rightarrow> nat \<Rightarrow> jstring \<Rightarrow> int \<Rightarrow> world" where
  "getStockPrice_call w caller sy now =
     (if fresh w sy now then
        (case cache w sy of
           Some (d, timestamp) \<Rightarrow> w\<lparr>returned := (returned w)(caller := Some (Some d))\<rparr>
         | None \<Rightarrow> w)
      else
        (case pendingRequests w sy of
           Some p \<Rightarrow> w\<lparr>awaiting := awaiting w @ [(caller, p, sy, False)]\<rparr>
         | None \<Rightarrow>
             (let p = length (issued w)
              in w\<lparr>issued := issued w @ [sy],
                    inflight := (inflight w)(p := Some sy),
                    pendingRequests := (pendingRequests w)(sy := Some p),
                    awaiting := awaiting w @ [(caller, p, sy, True)]\<rparr>)))"

text \<open>
  What the network answers: the \<open>fetch\<close> promise rejects, or a response arrives with a
  status and a body that \<open>response.json()\<close> parses or rejects (None).
\<close>

datatype fetch_outcome = Rejected | Response nat "json option"

text \<open>
  The \<open>try\<close> block of \<open>fetchStockData\<close> after the request is issued. The clock is
  read twice in one run, by \<open>new Date()\<close> in \<open>parseStockResponse\<close> and by
  \<open>Date.now()\<close> at \<open>cache.set\<close>; both reads are the instant \<open>now\<close>.
\<close>

definition fetchStockData_body :: "fetch_outcome \<Rightarrow> jstring \<Rightarrow> int
    \<Rightarrow> (jstring \<Rightarrow> (StockPrice \<times> int) option)
    \<Rightarrow> error + (StockPrice option \<times> (jstring \<Rightarrow> (StockPrice \<times> int) option))" where
  "fetchStockData_body outcome sy now c =
     (case outcome of
        Rejected \<Rightarrow> Inl NetworkError
      | Response status body \<Rightarrow>
          if \<not> (200 \<le> status \<and> status \<le> 299) then Inl (HttpError status)
          else
            (case body of
               None \<Rightarrow> Inl SyntaxError
             | Some data \<Rightarrow>
                 (case parseStockResponse data sy now of
                    Some stockData \<Rightarrow> Inr (Some stockData, c(sy := Some (stockData, now)))
                  | None \<Rightarrow> Inr (None, c))))"

text \<open>\<open>fetchStockData\<close>: the \<open>catch\<close> clause resolves the promise with null.\<close>

definition fetchStockData :: "fetch_outcome \<Rightarrow> jstring \<Rightarrow> int
    \<Rightarrow> (jstring \<Rightarrow> (StockPrice \<times> int) option)
    \<Rightarrow> StockPrice option \<times> (jstring \<Rightarrow> (StockPrice \<times> int) option)" where
  "fetchStockData outcome sy now c =
     (case fetchStockData_body outcome sy now c of
        Inl e \<Rightarrow> (None, c)
      | Inr r \<Rightarrow> r)"

text \<open>
  The calls that await promise \<open>p\<close> resume in the order in which they suspended. The call
  that created the promise deletes the pending entry of its symbol (the \<open>finally\<close>
  block); every call returns the promise's value. The promise of \<open>fetchStockData\<close> never
  rejects, so the outer \<open>catch\<close> of \<open>getStockPrice\<close> has nothing to handle.
\<close>

fun resume :: "nat \<Rightarrow> StockPrice option \<Rightarrow> (nat \<times> nat \<times> jstring \<times> bool) list \<Rightarrow> world \<Rightarrow> world" where
  "resume p v [] w = w"
| "resume p v ((caller, q, sy, owner) # rest) w =
     (if q = p then
        resume p v rest
          (w\<lparr>pendingRequests :=
                (if owner then (pendingRequests w)(sy := None) else pendingRequests w),
              returned := (returned w)(caller := Some v)\<rparr>)
      else resume p v rest w)"

text \<open>The network answers request \<open>p\<close>; nothing happens when \<open>p\<close> is not in flight.\<close>

definition settle :: "world \<Rightarrow> nat \<Rightarrow> fetch_outcome \<Rightarrow> int \<Rightarrow> world" where
  "settle w p outcome now =
     (case inflight w p of
        None \<Rightarrow> w
      | Some sy \<Rightarrow>
          (let (v, c) = fetchStockData outcome sy now (cache w);
               w1 = w\<lparr>cache := c, inflight := (inflight w)(p := None)\<rparr>;
               w2 = resume p v (awaiting w) w1
           in w2\<lparr>awaiting := filter (\<lambda>(caller, q, sy', owner). q \<noteq> p) (awaiting w)\<rparr>))"

text \<open>\<open>N\<close> calls for one symbol, by the given callers at the given times, one after the other.\<close>

fun calls :: "world \<Rightarrow> jstring \<Rightarrow> (nat \<times> int) list \<Rightarrow> world" where
  "calls w sy [] = w"
| "calls w sy ((caller, now) # rest) = calls (getStockPrice_call w caller sy now) sy rest"

text \<open>
  The events of the service: a call of \<open>getStockPrice\<close> by a caller for a symbol at a
  time, and the network's answer to a request.
\<close>

datatype sevent = CallE nat jstring int | SettleE nat fetch_outcome int

fun sstep :: "world \<Rightarrow> sevent \<Rightarrow> world" where
  "sstep w (CallE caller sy now) = getStockPrice_call w caller sy now"
| "sstep w (SettleE p outcome now) = settle w p outcome now"

fun srun :: "world \<Rightarrow> sevent list \<Rightarrow> world" where
  "srun w [] = w"
| "srun w (e # es) = srun (sstep w e) es"

text \<open>
  The events happen before the fetch for symbol \<open>sy\<close> settles, and the calls for \<open>sy\<close>
  find no fresh cache entry: each event is a call (for \<open>sy\<close>: at a time when the cache
  has no fresh entry for it) or the answer to a request that is not a request for \<open>sy\<close>.
\<close>

fun beforeSettle :: "jstring \<Rightarrow> world \<Rightarrow> sevent list \<Rightarrow> bool" where
  "beforeSettle sy w [] = True"
| "beforeSettle sy w (CallE caller s now # es) =
     ((s = sy \<longrightarrow> \<not> fresh w sy now) \<and> beforeSettle sy (getStockPrice_call w caller s now) es)"
| "beforeSettle sy w (SettleE p outcome now # es) =
     (inflight w p \<noteq> Some sy \<and> beforeSettle sy (settle w p outcome now) es)"

text \<open>The callers of the calls for \<open>sy\<close>, in the order of the calls.\<close>

fun callersOf :: "jstring \<Rightarrow> sevent list \<Rightarrow> nat list" where
  "callersOf sy [] = []"
| "callersOf sy (CallE caller s now # es) =
     (if s = sy then caller # callersOf sy es else callersOf sy es)"
| "callersOf sy (SettleE p outcome now # es) = callersOf sy es"

text \<open>
  The suspended calls for \<open>sy\<close>; and what they are when the callers \<open>cs\<close> share promise
  \<open>p\<close>: the first caller created the promise, the later ones joined it.
\<close>

definition forSymbol :: "jstring \<Rightarrow> (nat \<times> nat \<times> jstring \<times> bool) list
    \<Rightarrow> (nat \<times> nat \<times> jstring \<times> bool) list" where
  "forSymbol sy entries = filter (\<lambda>(caller, q, s, owner). s = sy) entries"

definition joined :: "jstring \<Rightarrow> nat \<Rightarrow> nat list \<Rightarrow> (nat \<times> nat \<times> jstring \<times> bool) list" where
  "joined sy p cs = (hd cs, p, sy, True) # map (\<lambda>c. (c, p, sy, False)) (tl cs)"

text \<open>
  The two phases of the service as seen from \<open>sy\<close>: \<open>idle\<close>, before the first call
  (nothing pending, no call suspended), and \<open>sharing\<close>, while its one request is in flight.
\<close>

definition idle :: "jstring \<Rightarrow> world \<Rightarrow> bool" where
  "idle sy w \<longleftrightarrow> pendingRequests w sy = None \<and> forSymbol sy (awaiting w) = []"

definition sharing :: "jstring \<Rightarrow> nat \<Rightarrow> nat list \<Rightarrow> world \<Rightarrow> bool" where
  "sharing sy p cs w \<longleftrightarrow>
     cs \<noteq> [] \<and> pendingRequests w sy = Some p \<and> inflight w p = Some sy
     \<and> p < length (issued w) \<and> forSymbol sy (awaiting w) = joined sy p cs"

text \<open>\<open>clearCache\<close>\<close>

definition clearCache :: "world \<Rightarrow> world" where
  "clearCache w = w\<lparr>cache := (\<lambda>sy. None)\<rparr>"

subsection \<open>getMultipleStockPrices\<close>

text \<open>
  What the function does to the outside is recorded as a trace: \<open>Issue sy\<close> is a call
  of \<open>getStockPrice\<close>, whose promise is then in flight; \<open>Joined\<close> is the completion of
  \<open>await Promise.all(promises)\<close>, when every promise of the batch has settled;
  \<open>Sleep ms\<close> is the timer of \<open>ms\<close> milliseconds the loop awaits, which fires no
  earlier than after that time.

  Every promise of \<open>getStockPrice\<close> fulfils, with a price or with null; \<open>resolved i\<close>
  is the value of the promise of the call for \<open>symbols[i]\<close>.
\<close>

datatype event = Issue jstring | Joined | Sleep nat

definition slice :: "'a list \<Rightarrow> nat \<Rightarrow> nat \<Rightarrow> 'a list" where
  "slice xs b e = take (e - b) (drop b xs)"

definition batchSize :: nat where
  "batchSize = 3"

text \<open>The \<open>forEach\<close> over the batch: a symbol is set when its result is not null.\<close>

fun setResults :: "(jstring \<times> StockPrice option) list \<Rightarrow> (jstring \<Rightarrow> StockPrice option)
    \<Rightarrow> (jstring \<Rightarrow> StockPrice option)" where
  "setResults [] results = results"
| "setResults ((sy, None) # rest) results = setResults rest results"
| "setResults ((sy, Some r) # rest) results = setResults rest (results(sy := Some r))"

function getMultipleStockPrices_loop :: "(nat \<Rightarrow> StockPrice option) \<Rightarrow> jstring list \<Rightarrow> nat
    \<Rightarrow> (jstring \<Rightarrow> StockPrice option) \<Rightarrow> event list
    \<Rightarrow> (jstring \<Rightarrow> StockPrice option) \<times> event list" where
  "getMultipleStockPrices_loop resolved symbols i results tr =
     (if i < length symbols then
        (let batch = slice symbols i (i + batchSize);
             batchResults = map resolved [i ..< i + length batch];
             results' = setResults (zip batch batchResults) results;
             tr' = tr @ map Issue batch @ [Joined]
                   @ (if i + batchSize < length symbols then [Sleep 500] else [])
         in getMultipleStockPrices_loop resolved symbols (i + batchSize) results' tr')
      else (results, tr))"
  by pat_completeness auto
termination
  by (relation "measure (\<lambda>(resolved, symbols, i, results, tr). length symbols - i)")
     (auto simp: batchSize_def)

definition getMultipleStockPrices :: "(nat \<Rightarrow> StockPrice option) \<Rightarrow> jstring list
    \<Rightarrow> (jstring \<Rightarrow> StockPrice option) \<times> event list" where
  "getMultipleStockPrices resolved symbols =
     getMultipleStockPrices_loop resolved symbols 0 (\<lambda>sy. None) []"

text \<open>The number of promises in flight after a trace.\<close>

fun inFlight :: "event list \<Rightarrow> nat \<Rightarrow> nat" where
  "inFlight [] n = n"
| "inFlight (Issue sy # tr) n = inFlight tr (Suc n)"
| "inFlight (Joined # tr) n = inFlight tr 0"
| "inFlight (Sleep ms # tr) n = inFlight tr n"

text \<open>
  The partition the specification describes: consecutive batches of three, the last one
  possibly smaller; and the trace it describes: each batch issued and joined, with a
  sleep of 500 ms between two batches.
\<close>

function batches :: "'a list \<Rightarrow> 'a list list" where
  "batches xs = (if xs = [] then [] else take 3 xs # batches (drop 3 xs))"
  by pat_completeness auto
termination
  by (relation "measure length") auto

fun batchTrace :: "jstring list list \<Rightarrow> event list" where
  "batchTrace [] = []"
| "batchTrace [b] = map Issue b @ [Joined]"
| "batchTrace (b # bs) = map Issue b @ [Joined, Sleep 500] @ batchTrace bs"

declare getMultipleStockPrices_loop.simps [simp del]

declare batches.simps [simp del]

section \<open>Real-time data provider\<close>

text \<open>
  \<open>inv_id\<close>, \<open>inv_name\<close>, \<open>inv_change\<close> and \<open>inv_type\<close> are the fields \<open>id\<close>,
  \<open>name\<close>, \<open>change\<close> and \<open>type\<close> of the source.
\<close>

record Investment =
  inv_id :: jstring
  ticker :: jstring
  inv_name :: jstring
  price :: number
  inv_change :: number
  changePercent :: number
  inv_type :: jstring
  currentValue :: number
  purchaseValue :: number
  quantity :: number

record PortfolioConfig =
  cfg_ticker :: jstring
  cfg_quantity :: number
  cfg_purchaseValue :: number

definition USER_PORTFOLIO_CONFIG :: "PortfolioConfig list" where
  "USER_PORTFOLIO_CONFIG =
     [\<lparr>cfg_ticker = str ''AAPL'', cfg_quantity = Fin 100, cfg_purchaseValue = Fin 15000\<rparr>,
      \<lparr>cfg_ticker = str ''GOOGL'', cfg_quantity = Fin 10, cfg_purchaseValue = Fin 30000\<rparr>,
      \<lparr>cfg_ticker = str ''MSFT'', cfg_quantity = Fin 50, cfg_purchaseValue = Fin 15000\<rparr>,
      \<lparr>cfg_ticker = str ''TSLA'', cfg_quantity = Fin 25, cfg_purchaseValue = Fin 12000\<rparr>,
      \<lparr>cfg_ticker = str ''NVDA'', cfg_quantity = Fin 30, cfg_purchaseValue = Fin 18000\<rparr>]"

record provider =
  investmentCache :: "Investment list option"
  lastInvestmentUpdate :: int

definition INVESTMENT_CACHE_DURATION :: int where
  "INVESTMENT_CACHE_DURATION = 300000"

text \<open>\<open>n.toString()\<close> of a natural number: its decimal digits.\<close>

function toString :: "nat \<Rightarrow> jstring" where
  "toString n = (if n < 10 then [48 + n] else toString (n div 10) @ [48 + n mod 10])"
  by pat_completeness auto
termination
  by (relation "measure id") auto

declare toString.simps [simp del]

text \<open>
  The table \<open>fallbackPrices\<close>: price, change and changePercent of a ticker. It is
  looked up at the tickers of the configuration only.
\<close>

definition fallbackPrices :: "(jstring \<times> number \<times> number \<times> number) list" where
  "fallbackPrices =
     [(str ''AAPL'', Fin 175.23, Fin 2.45, Fin 1.42),
      (str ''GOOGL'', Fin 2847.56, Fin (- 15.23), Fin (- 0.53)),
      (str ''MSFT'', Fin 331.78, Fin 4.12, Fin 1.26),
      (str ''TSLA'', Fin 248.50, Fin (- 3.20), Fin (- 1.27)),
      (str ''NVDA'', Fin 875.30, Fin 12.45, Fin 1.44)]"

definition getFallbackInvestment :: "PortfolioConfig \<Rightarrow> nat \<Rightarrow> Investment" where
  "getFallbackInvestment config index =
     (let fallback = (case map_of fallbackPrices (cfg_ticker config) of
                        Some f \<Rightarrow> f
                      | None \<Rightarrow> (Fin 100, Fin 0, Fin 0))
      in \<lparr>inv_id = toString (index + 1),
          ticker = cfg_ticker config,
          inv_name = getCompanyName (cfg_ticker config),
          price = fst fallback,
          inv_change = fst (snd fallback),
          changePercent = snd (snd fallback),
          inv_type = str ''stock'',
          currentValue = nmul (fst fallback) (cfg_quantity config),
          purchaseValue = cfg_purchaseValue config,
          quantity = cfg_quantity config\<rparr>)"

text \<open>\<open>xs.map((x, index) => f(x, index))\<close>\<close>

definition mapIndexed :: "('a \<Rightarrow> nat \<Rightarrow> 'b) \<Rightarrow> 'a list \<Rightarrow> 'b list" where
  "mapIndexed f xs = map (\<lambda>(x, index). f x index) (zip xs [0 ..< length xs])"

definition getFallbackInvestments :: "Investment list" where
  "getFallbackInvestments = mapIndexed getFallbackInvestment USER_PORTFOLIO_CONFIG"

text \<open>The position built from live data (the \<open>if (stockData)\<close> branch).\<close>

definition liveInvestment :: "StockPrice \<Rightarrow> PortfolioConfig \<Rightarrow> nat \<Rightarrow> Investment" where
  "liveInvestment stockData config index =
     (let usdPrice = nmul (current_price stockData) (Fin 0.012);
          usdChange = nmul (change stockData) (Fin 0.012)
      in \<lparr>inv_id = toString (index + 1),
          ticker = cfg_ticker config,
          inv_name = name stockData,
          price = parseFloat_toFixed2 usdPrice,
          inv_change = parseFloat_toFixed2 usdChange,
          changePercent = parseFloat_toFixed2 (change_percent stockData),
          inv_type = str ''stock'',
          currentValue = parseFloat_toFixed2 (nmul usdPrice (cfg_quantity config)),
          purchaseValue = cfg_purchaseValue config,
          quantity = cfg_quantity config\<rparr>)"

text \<open>
  The \<open>try\<close> block of \<open>getRealTimeInvestments\<close>. \<open>now\<close> is the clock at the cache test,
  \<open>now'\<close> the clock when the results are cached; \<open>resolved\<close> gives the values the
  promises of \<open>getStockPrice\<close> resolve to (see \<open>getMultipleStockPrices\<close>). No step of
  the block throws.
\<close>

definition getRealTimeInvestments_body :: "provider \<Rightarrow> int \<Rightarrow> (nat \<Rightarrow> StockPrice option) \<Rightarrow> int
    \<Rightarrow> error + (Investment list \<times> provider)" where
  "getRealTimeInvestments_body st now resolved now' =
     (let symbols = map cfg_ticker USER_PORTFOLIO_CONFIG;
          stockPrices = fst (getMultipleStockPrices resolved symbols);
          investments = mapIndexed (\<lambda>config index.
              case stockPrices (cfg_ticker config) of
                Some stockData \<Rightarrow> liveInvestment stockData config index
              | None \<Rightarrow> getFallbackInvestment config index) USER_PORTFOLIO_CONFIG;
          fetched = (investments,
                     st\<lparr>investmentCache := Some investments, lastInvestmentUpdate := now'\<rparr>)
      in case investmentCache st of
           Some cached \<Rightarrow>
             if now - lastInvestmentUpdate st < INVESTMENT_CACHE_DURATION then Inr (cached, st)
             else Inr fetched
         | None \<Rightarrow> Inr fetched)"

text \<open>
  A provider operation returns \<open>Inr\<close> of its value when its promise fulfils and \<open>Inl\<close>
  of the exception when it rejects. \<open>getRealTimeInvestments\<close>: the \<open>catch\<close> clause
  returns the fallback investments.
\<close>

definition getRealTimeInvestments :: "provider \<Rightarrow> int \<Rightarrow> (nat \<Rightarrow> StockPrice option) \<Rightarrow> int
    \<Rightarrow> error + (Investment list \<times> provider)" where
  "getRealTimeInvestments st now resolved now' =
     (case getRealTimeInvestments_body st now resolved now' of
        Inl e \<Rightarrow> Inr (getFallbackInvestments, st)
      | Inr r \<Rightarrow> Inr r)"

text \<open>A series for a chart: the values and their labels.\<close>

record series =
  series_data :: "number list"
  series_labels :: "jstring list"

definition months :: "jstring list" where
  "months = [str ''Jul'', str ''Aug'', str ''Sep'', str ''Oct'', str ''Nov'', str ''Dec'']"

definition fallbackPortfolio :: series where
  "fallbackPortfolio =
     \<lparr>series_data = [Fin 67, Fin 72, Fin 69, Fin 75, Fin 78, Fin 82], series_labels = months\<rparr>"

text \<open>\<open>xs.reduce((sum, x) => sum + f(x), 0)\<close>\<close>

definition sumOf :: "('a \<Rightarrow> number) \<Rightarrow> 'a list \<Rightarrow> number" where
  "sumOf f xs = foldl (\<lambda>sum x. nadd sum (f x)) (Fin 0) xs"

text \<open>
  The \<open>try\<close> block of \<open>getRealTimePortfolioData\<close>; \<open>random i\<close> is the value of the
  \<open>i\<close>-th call of \<open>Math.random()\<close>.
\<close>

definition getRealTimePortfolioData_body :: "provider \<Rightarrow> int \<Rightarrow> (nat \<Rightarrow> StockPrice option) \<Rightarrow> int
    \<Rightarrow> (nat \<Rightarrow> number) \<Rightarrow> error + (series \<times> provider)" where
  "getRealTimePortfolioData_body st now resolved now' random =
     (case getRealTimeInvestments st now resolved now' of
        Inl e \<Rightarrow> Inl e
      | Inr (investments, st') \<Rightarrow>
          (let totalCurrentValue = sumOf currentValue investments;
               totalPurchaseValue = sumOf purchaseValue investments;
               currentPerformance =
                 nmul (ndiv (nsub totalCurrentValue totalPurchaseValue) totalPurchaseValue) (Fin 100);
               baseValue = Fin 100;
               point = (\<lambda>i.
                 let variation = nmul (nsub (random i) (Fin 0.5)) (Fin 10);
                     v = nadd (nadd baseValue
                           (ndiv (nmul currentPerformance (Fin (real (i + 1)))) (Fin 6))) variation
                 in Math_max (Fin 50) (Math_min (Fin 150) v))
           in Inr (\<lparr>series_data = map point [0 ..< 6],
                     series_labels = map (\<lambda>i. months ! i) [0 ..< 6]\<rparr>, st')))"

definition getRealTimePortfolioData :: "provider \<Rightarrow> int \<Rightarrow> (nat \<Rightarrow> StockPrice option) \<Rightarrow> int
    \<Rightarrow> (nat \<Rightarrow> number) \<Rightarrow> error + (series \<times> provider)" where
  "getRealTimePortfolioData st now resolved now' random =
     (case getRealTimePortfolioData_body st now resolved now' random of
        Inl e \<Rightarrow> Inr (fallbackPortfolio, st)
      | Inr r \<Rightarrow> Inr r)"

subsection \<open>Market insights\<close>

text \<open>\<open>s.split('\n')\<close>: the pieces of \<open>s\<close> between the line feeds.\<close>

fun splitLines :: "jstring \<Rightarrow> jstring \<Rightarrow> jstring list" where
  "splitLines [] cur = [cur]"
| "splitLines (c # s) cur = (if c = 10 then cur # splitLines s [] else splitLines s (cur @ [c]))"

definition trim :: "jstring \<Rightarrow> jstring" where
  "trim s = rev (dropWhile isSpace (rev (dropWhile isSpace s)))"

text \<open>\<open>line.replace(/^[\<bullet>\-]\s*/, '')\<close>: a leading bullet or dash goes, with the white space after it.\<close>

fun stripBullet :: "jstring \<Rightarrow> jstring" where
  "stripBullet [] = []"
| "stripBullet (c # s) =
     (if c = bullet \<or> c = of_char CHR ''-'' then dropWhile isSpace s else c # s)"

definition getFallbackInsights :: "jstring list" where
  "getFallbackInsights =
     [str ''Tech stocks showing mixed performance amid market volatility'',
      str ''Federal Reserve policy decisions continue to impact market sentiment'',
      str ''Energy sector gains momentum with rising commodity prices'']"

text \<open>
  \<open>chatbotApi.sendQuery\<close> is not part of the sources at hand; by its use it returns a
  promise of a string. Its outcome is a parameter: \<open>Inr\<close> of the answer, or \<open>Inl\<close> of the
  exception with which the promise rejects.
\<close>

definition getMarketInsights_body :: "error + jstring \<Rightarrow> error + jstring list" where
  "getMarketInsights_body sendQuery =
     (case sendQuery of
        Inl e \<Rightarrow> Inl e
      | Inr response \<Rightarrow>
          (let insights =
                 take 3 (filter (\<lambda>insight. 0 < length insight)
                   (map (\<lambda>line. trim (stripBullet line))
                     (filter (\<lambda>line. startsWith (trim line) [bullet]
                                \<or> startsWith (trim line) (str ''-''))
                        (splitLines response []))))
           in if 0 < length insights then Inr insights else Inr getFallbackInsights))"

definition getMarketInsights :: "error + jstring \<Rightarrow> error + jstring list" where
  "getMarketInsights sendQuery =
     (case getMarketInsights_body sendQuery of
        Inl e \<Rightarrow> Inr getFallbackInsights
      | Inr r \<Rightarrow> Inr r)"

subsection \<open>Exchange rates\<close>

text \<open>The expression \<open>/(\d+\.?\d*)/\<close>, without flags.\<close>

definition rateRe :: "item list" where
  "rateRe =
     [GroupOpen, Atom (One CDigit) Plus, Atom (One (CChr (of_char CHR ''.''))) Opt,
      Atom (One CDigit) Star, GroupClose]"

definition fallbackExchangeRates :: series where
  "fallbackExchangeRates =
     \<lparr>series_data = [Fin 83.2, Fin 83.5, Fin 83.1, Fin 83.3, Fin 83.6, Fin 83.4, Fin 83.7],
      series_labels = [str ''Day 1'', str ''Day 2'', str ''Day 3'', str ''Day 4'', str ''Day 5'',
                       str ''Day 6'', str ''Day 7'']\<rparr>"

definition getRealTimeExchangeRates_body :: "error + jstring \<Rightarrow> (nat \<Rightarrow> number) \<Rightarrow> error + series" where
  "getRealTimeExchangeRates_body sendQuery random =
     (case sendQuery of
        Inl e \<Rightarrow> Inl e
      | Inr response \<Rightarrow>
          (let rateMatch = match_js False rateRe response;
               currentRate = (case rateMatch of Some m \<Rightarrow> parseFloat (m ! 1) | None \<Rightarrow> Fin 83.5);
               point = (\<lambda>i.
                 let variation = nmul (nsub (random i) (Fin 0.5)) (Fin 2);
                     rate = nadd currentRate variation
                 in parseFloat_toFixed2 rate)
           in Inr \<lparr>series_data = map point [0 ..< 7],
                   series_labels = map (\<lambda>i. str ''Day '' @ toString (i + 1)) [0 ..< 7]\<rparr>))"

definition getRealTimeExchangeRates :: "error + jstring \<Rightarrow> (nat \<Rightarrow> number) \<Rightarrow> error + series" where
  "getRealTimeExchangeRates sendQuery random =
     (case getRealTimeExchangeRates_body sendQuery random of
        Inl e \<Rightarrow> Inr fallbackExchangeRates
      | Inr r \<Rightarrow> Inr r)"

section \<open>Data context\<close>

subsection \<open>Derived aggregates\<close>

record investmentTotals =
  totalValue :: number
  totalPurchaseValue :: number
  totalGainLoss :: number
  totalGainLossPercent :: number

text \<open>The aggregates \<open>useInvestments\<close> computes from the investments of the context.\<close>

definition useInvestments :: "Investment list \<Rightarrow> investmentTotals" where
  "useInvestments investments =
     (let tv = sumOf currentValue investments;
          tpv = sumOf purchaseValue investments;
          tgl = nsub tv tpv
      in \<lparr>totalValue = tv,
          totalPurchaseValue = tpv,
          totalGainLoss = tgl,
          totalGainLossPercent =
            (if ngreater tpv (Fin 0) then nmul (ndiv tgl tpv) (Fin 100) else Fin 0)\<rparr>)"

text \<open>\<open>xs[i]\<close> for an index that may be out of range (None is \<open>undefined\<close>), and \<open>v || 0\<close>.\<close>

definition index_js :: "number list \<Rightarrow> int \<Rightarrow> number option" where
  "index_js xs i = (if 0 \<le> i \<and> i < int (length xs) then Some (xs ! nat i) else None)"

fun orZero :: "number option \<Rightarrow> number" where
  "orZero None = Fin 0"
| "orZero (Some x) = (if ntruthy x then x else Fin 0)"

record portfolioChange =
  portfolio_currentValue :: number
  portfolio_change :: number
  portfolio_changePercent :: number

text \<open>The aggregates \<open>usePortfolio\<close> computes from \<open>portfolioData.data\<close>.\<close>

definition usePortfolio :: "number list \<Rightarrow> portfolioChange" where
  "usePortfolio pdata =
     (let cv = orZero (index_js pdata (int (length pdata) - 1));
          previousValue = orZero (index_js pdata (int (length pdata) - 2));
          ch = nsub cv previousValue
      in \<lparr>portfolio_currentValue = cv,
          portfolio_change = ch,
          portfolio_changePercent =
            (if ngreater previousValue (Fin 0) then nmul (ndiv ch previousValue) (Fin 100)
             else Fin 0)\<rparr>)"

text \<open>
  The relation \<open><=\<close> of JavaScript, used to state properties: less or equal, and false
  as soon as one side is NaN.
\<close>

definition nle :: "number \<Rightarrow> number \<Rightarrow> bool" where
  "nle a b = (nless a b \<or> (a = b \<and> a \<noteq> NaN))"

subsection \<open>The provider component as a state machine\<close>

text \<open>
  The state of \<open>DataProvider\<close> that governs refreshing: the three state variables, whether
  the interval of the auto-refresh effect is set, the log of the calls of \<open>refreshData\<close>
  with what issued each, the number of runs of \<open>refreshData\<close> suspended at an \<open>await\<close>,
  and whether \<open>loadInitialData\<close> is still running. The data the context holds
  (investments, series, insights, \<open>lastUpdated\<close>) does not influence these and is left out.

  A step is one task of the event loop: an event handler or a continuation runs against
  the state of the last render, its state updates are applied together, and the component
  renders again and runs its effects before the next task.
\<close>

datatype message = BackendUnavailable | RefreshFailed | RealTimeUnavailable | ConnectionFailed

datatype origin = ByToggle | ByTimer | ByUser

record ctx =
  isRealTimeEnabled :: bool
  isLoading :: bool
  error :: "message option"
  interval :: bool
  refreshLog :: "origin list"
  suspended :: nat
  loadingInitial :: bool

text \<open>
  The auto-refresh effect, with dependencies \<open>[isRealTimeEnabled, isLoading]\<close>: when one
  of them changed in a render, the cleanup clears the interval and the effect sets a new
  one unless real-time is disabled.
\<close>

definition commit :: "ctx \<Rightarrow> ctx \<Rightarrow> ctx" where
  "commit old new =
     (if isRealTimeEnabled new = isRealTimeEnabled old \<and> isLoading new = isLoading old then new
      else new\<lparr>interval := isRealTimeEnabled new\<rparr>)"

text \<open>
  \<open>refreshData\<close> up to its first \<open>await\<close>. It reads \<open>isLoading\<close> and
  \<open>isRealTimeEnabled\<close> from the render \<open>snap\<close> that created the closure and updates the
  state \<open>st\<close>. When its closure has real-time disabled the \<open>try\<close> block is empty and the
  function runs to its end: \<open>setIsLoading(true)\<close>, \<open>setError(null)\<close> and, in the
  \<open>finally\<close> block, \<open>setIsLoading(false)\<close>. Otherwise it suspends at
  \<open>await testApiConnection()\<close>.
\<close>

definition refreshData_call :: "origin \<Rightarrow> ctx \<Rightarrow> ctx \<Rightarrow> ctx" where
  "refreshData_call who snap st =
     (let st1 = st\<lparr>refreshLog := refreshLog st @ [who]\<rparr>
      in if isLoading snap then st1
         else if isRealTimeEnabled snap then
           st1\<lparr>isLoading := True, error := None, suspended := suspended st1 + 1\<rparr>
         else st1\<lparr>isLoading := False, error := None\<rparr>)"

text \<open>
  How a suspended run of \<open>refreshData\<close> goes on: the backend is unavailable; or it is
  available and the data is refreshed and loaded; or an exception reaches the \<open>catch\<close>
  clause. The \<open>finally\<close> block resets \<open>isLoading\<close>.
\<close>

datatype backend = Unavailable | Loaded | Failed

definition refreshData_resume :: "backend \<Rightarrow> ctx \<Rightarrow> ctx" where
  "refreshData_resume outcome st =
     (if suspended st = 0 then st
      else
        (let st1 = st\<lparr>suspended := suspended st - 1\<rparr>
         in commit st
              (case outcome of
                 Unavailable \<Rightarrow>
                   st1\<lparr>error := Some BackendUnavailable, isRealTimeEnabled := False,
                       isLoading := False\<rparr>
               | Loaded \<Rightarrow> st1\<lparr>error := None, isLoading := False\<rparr>
               | Failed \<Rightarrow> st1\<lparr>error := Some RefreshFailed, isLoading := False\<rparr>)))"

definition toggleRealTime :: "ctx \<Rightarrow> ctx" where
  "toggleRealTime st =
     commit st
       (let st1 = st\<lparr>isRealTimeEnabled := \<not> isRealTimeEnabled st, error := None\<rparr>
        in if \<not> isRealTimeEnabled st then refreshData_call ByToggle st st1 else st1)"

text \<open>The callback of the interval; it runs only while the interval is set.\<close>

definition tick :: "ctx \<Rightarrow> ctx" where
  "tick st =
     (if interval st then
        commit st (if \<not> isLoading st then refreshData_call ByTimer st st else st)
      else st)"

text \<open>A press on a refresh control calls \<open>refreshData\<close>.\<close>

definition userRefresh :: "ctx \<Rightarrow> ctx" where
  "userRefresh st = commit st (refreshData_call ByUser st st)"

definition clearError :: "ctx \<Rightarrow> ctx" where
  "clearError st = st\<lparr>error := None\<rparr>"

text \<open>
  The component after its first render and its mount effects: \<open>loadInitialData\<close> has run
  up to its first \<open>await\<close> and the interval is set. \<open>loadInitialData\<close> ends with real-time
  data loaded, with fallback data because the backend is unavailable, or in its \<open>catch\<close>
  clause.
\<close>

definition mounted :: ctx where
  "mounted =
     \<lparr>isRealTimeEnabled = True, isLoading = True, error = None, interval = True,
      refreshLog = [], suspended = 0, loadingInitial = True\<rparr>"

definition loadInitialData_resume :: "backend \<Rightarrow> ctx \<Rightarrow> ctx" where
  "loadInitialData_resume outcome st =
     (if \<not> loadingInitial st then st
      else
        (let st1 = st\<lparr>loadingInitial := False\<rparr>
         in commit st
              (case outcome of
                 Loaded \<Rightarrow> st1\<lparr>error := None, isLoading := False\<rparr>
               | Unavailable \<Rightarrow> st1\<lparr>error := Some RealTimeUnavailable, isLoading := False\<rparr>
               | Failed \<Rightarrow> st1\<lparr>error := Some ConnectionFailed, isLoading := False\<rparr>)))"

text \<open>
  What can happen to the mounted component: a press on the real-time toggle, the timer, a
  press on a refresh control, the dismissal of the error, and the completion of a
  suspended \<open>refreshData\<close> or of \<open>loadInitialData\<close>.
\<close>

datatype action = Toggle | Tick | UserRefresh | ClearError | Refreshed backend
  | InitialLoaded backend

fun step :: "action \<Rightarrow> ctx \<Rightarrow> ctx" where
  "step Toggle st = toggleRealTime st"
| "step Tick st = tick st"
| "step UserRefresh st = userRefresh st"
| "step ClearError st = clearError st"
| "step (Refreshed outcome) st = refreshData_resume outcome st"
| "step (InitialLoaded outcome) st = loadInitialData_resume outcome st"

fun run :: "action list \<Rightarrow> ctx \<Rightarrow> ctx" where
  "run [] st = st"
| "run (a # as) st = run as (step a st)"

inductive reachable :: "ctx \<Rightarrow> bool" where
  r_mounted: "reachable mounted"
| r_step: "reachable st \<Longrightarrow> reachable (step a st)"

section \<open>Inputs named in the properties\<close>

text \<open>The two shapes in which the backend wraps the assistant's text.\<close>

definition plainResponse :: "jstring \<Rightarrow> json" where
  "plainResponse content = JObj [(str ''answer'', JStr content)]"

definition nestedResponse :: "jstring \<Rightarrow> json" where
  "nestedResponse content = JObj [(str ''answer'', JObj [(str ''answer'', JStr content)])]"

text \<open>The example text of the specification; code unit 10 is the line feed.\<close>

definition exampleText :: jstring where
  "exampleText =
     str ''Current Price: '' @ [rupee] @ str ''2,850.55'' @ [10]
     @ str ''Change: '' @ [rupee] @ str ''+12.30 (0.43%)'' @ [10]
     @ str ''Previous Close: '' @ [rupee] @ str ''2,838.25''"

text \<open>A text with a change, a previous close and a volume, but no price.\<close>

definition noPriceText :: jstring where
  "noPriceText =
     str ''Change: '' @ [rupee] @ str ''+12.30 (0.43%)'' @ [10]
     @ str ''Previous Close: '' @ [rupee] @ str ''2,838.25'' @ [10]
     @ str ''Volume: 1,000''"

text \<open>A text with a price and nothing else.\<close>

definition priceOnlyText :: jstring where
  "priceOnlyText = str ''Current Price: '' @ [rupee] @ str ''1,250.5''"

text \<open>A price object, and a service whose cache holds it since time 1000.\<close>

definition somePrice :: StockPrice where
  "somePrice =
     \<lparr>symbol = str ''TCS'', name = str ''Tata Consultancy Services Ltd.'',
      current_price = Fin 3500, change = Fin 10, change_percent = Fin 0.29,
      previous_close = Fin 3490, open_price = Fin 3490, high = Fin 3510, low = Fin 3490,
      volume = Fin 0, market_cap = str ''N/A'', last_updated = 1000\<rparr>"

definition cachedWorld :: world where
  "cachedWorld =
     \<lparr>cache = (\<lambda>sy. None)(str ''TCS'' := Some (somePrice, 1000)),
      pendingRequests = (\<lambda>sy. None), issued = [str ''TCS''], inflight = (\<lambda>p. None),
      awaiting = [], returned = (\<lambda>c. None)\<rparr>"

text \<open>The service right after its construction.\<close>

definition newWorld :: world where
  "newWorld =
     \<lparr>cache = (\<lambda>sy. None), pendingRequests = (\<lambda>sy. None), issued = [],
      inflight = (\<lambda>p. None), awaiting = [], returned = (\<lambda>c. None)\<rparr>"

text \<open>
  Three calls for TCS, with a call for INFY and the failure of its request in between.
\<close>

definition mixedEvents :: "sevent list" where
  "mixedEvents =
     [CallE 1 (str ''TCS'') 100, CallE 2 (str ''INFY'') 101, CallE 3 (str ''TCS'') 105,
      SettleE 1 Rejected 200, CallE 4 (str ''TCS'') 210]"

text \<open>The provider right after its construction, and one whose cache is out of date at time 400000.\<close>

definition newProvider :: provider where
  "newProvider = \<lparr>investmentCache = None, lastInvestmentUpdate = 0\<rparr>"

definition staleProvider :: provider where
  "staleProvider = \<lparr>investmentCache = Some [], lastInvestmentUpdate = 1000\<rparr>"

text \<open>
  The fallback table as the specification gives it: ticker, fallback price, quantity,
  purchase value, and the current value, which is the price times the quantity.
\<close>

definition fallbackTable :: "(jstring \<times> number \<times> number \<times> number \<times> number) list" where
  "fallbackTable =
     [(str ''AAPL'', Fin 175.23, Fin 100, Fin 15000, Fin 17523),
      (str ''GOOGL'', Fin 2847.56, Fin 10, Fin 30000, Fin 28475.6),
      (str ''MSFT'', Fin 331.78, Fin 50, Fin 15000, Fin 16589),
      (str ''TSLA'', Fin 248.50, Fin 25, Fin 12000, Fin 6212.5),
      (str ''NVDA'', Fin 875.30, Fin 30, Fin 18000, Fin 26259)]"

definition position :: "Investment \<Rightarrow> jstring \<times> number \<times> number \<times> number \<times> number" where
  "position x = (ticker x, price x, quantity x, purchaseValue x, currentValue x)"

text \<open>The five symbols of the portfolio, of which only the second resolves to a price.\<close>

definition fiveSymbols :: "jstring list" where
  "fiveSymbols = [str ''AAPL'', str ''GOOGL'', str ''MSFT'', str ''TSLA'', str ''NVDA'']"

definition onlySecond :: "nat \<Rightarrow> StockPrice option" where
  "onlySecond i = (if i = 1 then Some somePrice else None)"

text \<open>An investment whose purchase value is not a number.\<close>

definition nanInvestment :: Investment where
  "nanInvestment =
     \<lparr>inv_id = str ''1'', ticker = str ''AAPL'', inv_name = str ''Apple Inc.'',
      price = Fin 175.23, inv_change = Fin 2.45, changePercent = Fin 1.42,
      inv_type = str ''stock'', currentValue = Fin 17523, purchaseValue = NaN,
      quantity = Fin 100\<rparr>"

text \<open>
  The positions built when only the second price lookup resolves (to the price object above),
  an answer of the chatbot with two bullet lines, and one that names a rate.
\<close>

definition mixedInvestments :: "Investment list" where
  "mixedInvestments =
     [getFallbackInvestment (USER_PORTFOLIO_CONFIG ! 0) 0,
      liveInvestment somePrice (USER_PORTFOLIO_CONFIG ! 1) 1,
      getFallbackInvestment (USER_PORTFOLIO_CONFIG ! 2) 2,
      getFallbackInvestment (USER_PORTFOLIO_CONFIG ! 3) 3,
      getFallbackInvestment (USER_PORTFOLIO_CONFIG ! 4) 4]"

definition insightsAnswer :: jstring where
  "insightsAnswer =
     str ''Today:'' @ [10] @ str ''- Markets are up'' @ [10]
     @ [bullet] @ str '' Tech is mixed'' @ [10] @ str ''Thanks''"

definition rateAnswer :: jstring where
  "rateAnswer = str ''The rate is 83.27 INR per USD''"

section \<open>Properties of parseStockResponse\<close>

lemmas regex_eval = match_js_def priceRe_def changeRe_def previousCloseRe_def volumeRe_def
  str_def lit_def amount_def sign_def rupee_def upperChar_def isDigit_def isSpace_def
  isLineTerminator_def substring_def

lemmas number_eval = parseFloat_def parseInt_def removeCommas_def str_def startsWith_def
  isSpace_def isLineTerminator_def isDigit_def digitsValue_def scale10_def exponentPart_def
  Let_def

lemma priceRe_empty: "match_js True priceRe [] = None"
  by (simp add: regex_eval)

lemma priceRe_nonempty: "match_js True priceRe content = Some pm \<Longrightarrow> content \<noteq> []"
  using priceRe_empty by auto

lemma parseStockResponse_plain:
  "parseStockResponse (plainResponse content) sy now =
     (if content = [] then None
      else case parseContent (Some (JStr content)) sy now of Inl e \<Rightarrow> None | Inr r \<Rightarrow> r)"
  by (simp add: parseStockResponse_def parseStockResponse_body_def plainResponse_def)

lemma parseStockResponse_nested:
  "parseStockResponse (nestedResponse content) sy now =
     (case parseContent (Some (JStr content)) sy now of Inl e \<Rightarrow> None | Inr r \<Rightarrow> r)"
  by (simp add: parseStockResponse_def parseStockResponse_body_def nestedResponse_def)

lemma parseContent_no_price:
  "match_js True priceRe content = None \<Longrightarrow> parseContent (Some (JStr content)) sy now = Inr None"
  by (simp add: parseContent_def)

lemma example_price:
  "match_js True priceRe exampleText
     = Some [str ''Current Price: '' @ [rupee] @ str ''2,850.55'', str ''2,850.55'']"
  by (simp add: regex_eval exampleText_def)

lemma example_change:
  "match_js True changeRe exampleText
     = Some [str ''Change: '' @ [rupee] @ str ''+12.30 (0.43%)'', str ''+12.30'', str ''0.43'']"
  by (simp add: regex_eval exampleText_def)

lemma example_close:
  "match_js True previousCloseRe exampleText
     = Some [str ''Previous Close: '' @ [rupee] @ str ''2,838.25'', str ''2,838.25'']"
  by (simp add: regex_eval exampleText_def)

lemma example_volume: "match_js True volumeRe exampleText = None"
  by (simp add: regex_eval exampleText_def)

lemma example_numbers:
  "parseFloat (removeCommas (str ''2,850.55'')) = Fin 2850.55"
  "parseFloat (removeCommas (str ''+12.30'')) = Fin 12.30"
  "parseFloat (str ''0.43'') = Fin 0.43"
  "parseFloat (removeCommas (str ''2,838.25'')) = Fin 2838.25"
  by (simp_all add: number_eval)

lemma example_content:
  "parseContent (Some (JStr exampleText)) sy now =
     Inr (Some \<lparr>symbol = toUpperCase sy, name = getCompanyName sy,
       current_price = Fin 2850.55, change = Fin 12.30, change_percent = Fin 0.43,
       previous_close = Fin 2838.25, open_price = Fin 2838.25, high = Fin 2862.85,
       low = Fin 2838.25, volume = Fin 0, market_cap = str ''N/A'', last_updated = now\<rparr>)"
  by (simp add: parseContent_def example_price example_change example_close example_volume
      example_numbers nsub_def Let_def)

lemma example_nonempty: "exampleText \<noteq> []"
  by (simp add: exampleText_def str_def)

text \<open>
  Claim C4. Parsing the example text, in either response shape and for every symbol and
  clock, yields a price object (not null) with current price 2850.55, change 12.30,
  change percent 0.43 and previous close 2838.25.
\<close>

theorem parseStockResponse_example:
  "\<exists>sp. parseStockResponse (plainResponse exampleText) sy now = Some sp
      \<and> parseStockResponse (nestedResponse exampleText) sy now = Some sp
      \<and> current_price sp = Fin 2850.55 \<and> change sp = Fin 12.30
      \<and> change_percent sp = Fin 0.43 \<and> previous_close sp = Fin 2838.25"
  by (simp add: parseStockResponse_plain parseStockResponse_nested example_content
      example_nonempty)

lemma noPrice_matches:
  "match_js True priceRe noPriceText = None"
  "match_js True changeRe noPriceText \<noteq> None"
  "match_js True previousCloseRe noPriceText \<noteq> None"
  "match_js True volumeRe noPriceText \<noteq> None"
  by (simp_all add: regex_eval noPriceText_def)

text \<open>
  Claim C5. When the price expression does not match the text, \<open>parseStockResponse\<close>
  returns null, in either response shape, whatever the other three expressions match.
\<close>

theorem parseStockResponse_null_without_price:
  "match_js True priceRe content = None \<Longrightarrow>
   parseStockResponse (plainResponse content) sy now = None
   \<and> parseStockResponse (nestedResponse content) sy now = None"
  by (simp add: parseStockResponse_plain parseStockResponse_nested parseContent_no_price)

theorem parseStockResponse_null_without_price_witness:
  "match_js True priceRe noPriceText = None
   \<and> match_js True changeRe noPriceText \<noteq> None
   \<and> match_js True previousCloseRe noPriceText \<noteq> None
   \<and> match_js True volumeRe noPriceText \<noteq> None
   \<and> parseStockResponse (plainResponse noPriceText) (str ''TCS'') 0 = None
   \<and> parseStockResponse (nestedResponse noPriceText) (str ''TCS'') 0 = None"
  using parseStockResponse_null_without_price [OF noPrice_matches(1), of "str ''TCS''" 0]
    noPrice_matches
  by simp

text \<open>
  Claim C9. When the price expression matches, \<open>parseStockResponse\<close> returns a price
  object whose change and change percent are 0 when the change expression does not match,
  whose previous close is the current price minus the change when the previous-close
  expression does not match, whose volume is 0 when the volume expression does not match,
  and whose open, high and low are the previous close, the current price plus the absolute
  change and the current price minus the absolute change.
\<close>

theorem parseStockResponse_defaults:
  "match_js True priceRe content = Some pm \<Longrightarrow>
   \<exists>sp. parseStockResponse (plainResponse content) sy now = Some sp
      \<and> parseStockResponse (nestedResponse content) sy now = Some sp
      \<and> (match_js True changeRe content = None \<longrightarrow> change sp = Fin 0 \<and> change_percent sp = Fin 0)
      \<and> (match_js True previousCloseRe content = None
            \<longrightarrow> previous_close sp = nsub (current_price sp) (change sp))
      \<and> (match_js True volumeRe content = None \<longrightarrow> volume sp = Fin 0)
      \<and> open_price sp = previous_close sp
      \<and> high sp = nadd (current_price sp) (nabs (change sp))
      \<and> low sp = nsub (current_price sp) (nabs (change sp))"
proof -
  assume m: "match_js True priceRe content = Some pm"
  then have ne: "content \<noteq> []"
    by (rule priceRe_nonempty)
  show ?thesis
    using m ne
    by (simp add: parseStockResponse_plain parseStockResponse_nested parseContent_def Let_def)
qed

lemma priceOnly_matches:
  "match_js True priceRe priceOnlyText = Some [priceOnlyText, str ''1,250.5'']"
  "match_js True changeRe priceOnlyText = None"
  "match_js True previousCloseRe priceOnlyText = None"
  "match_js True volumeRe priceOnlyText = None"
  by (simp_all add: regex_eval priceOnlyText_def)

theorem parseStockResponse_defaults_witness:
  "match_js True priceRe priceOnlyText = Some [priceOnlyText, str ''1,250.5'']
   \<and> match_js True changeRe priceOnlyText = None
   \<and> match_js True previousCloseRe priceOnlyText = None
   \<and> match_js True volumeRe priceOnlyText = None
   \<and> (\<exists>sp. parseStockResponse (plainResponse priceOnlyText) (str ''TCS'') 0 = Some sp
        \<and> parseStockResponse (nestedResponse priceOnlyText) (str ''TCS'') 0 = Some sp
        \<and> change sp = Fin 0 \<and> change_percent sp = Fin 0
        \<and> previous_close sp = nsub (current_price sp) (change sp)
        \<and> volume sp = Fin 0
        \<and> open_price sp = previous_close sp
        \<and> high sp = nadd (current_price sp) (nabs (change sp))
        \<and> low sp = nsub (current_price sp) (nabs (change sp)))"
  using parseStockResponse_defaults [OF priceOnly_matches(1), of "str ''TCS''" 0]
    priceOnly_matches
  by simp

section \<open>Properties of getStockPrice\<close>

lemma calls_join:
  "pendingRequests w sy = Some p \<Longrightarrow> \<forall>(caller, now)\<in>set cs. \<not> fresh w sy now \<Longrightarrow>
   calls w sy cs = w\<lparr>awaiting := awaiting w @ map (\<lambda>(caller, now). (caller, p, sy, False)) cs\<rparr>"
proof (induction cs arbitrary: w)
  case Nil
  then show ?case by simp
next
  case (Cons c cs)
  obtain caller now where c: "c = (caller, now)"
    by (cases c)
  let ?w1 = "w\<lparr>awaiting := awaiting w @ [(caller, p, sy, False)]\<rparr>"
  have first: "getStockPrice_call w caller sy now = ?w1"
    using Cons.prems c by (simp add: getStockPrice_call_def)
  have "calls ?w1 sy cs
      = ?w1\<lparr>awaiting := awaiting ?w1 @ map (\<lambda>(caller, now). (caller, p, sy, False)) cs\<rparr>"
    using Cons.prems by (intro Cons.IH) (auto simp: fresh_def)
  then show ?case
    using first c by simp
qed

lemma calls_first:
  assumes "pendingRequests w sy = None" and "\<forall>(caller, now)\<in>set ((c, t) # cs). \<not> fresh w sy now"
  shows "calls w sy ((c, t) # cs) =
     w\<lparr>issued := issued w @ [sy],
       inflight := (inflight w)(length (issued w) := Some sy),
       pendingRequests := (pendingRequests w)(sy := Some (length (issued w))),
       awaiting := awaiting w @ (c, length (issued w), sy, True)
          # map (\<lambda>(caller, now). (caller, length (issued w), sy, False)) cs\<rparr>"
proof -
  let ?p = "length (issued w)"
  let ?w1 = "w\<lparr>issued := issued w @ [sy],
       inflight := (inflight w)(?p := Some sy),
       pendingRequests := (pendingRequests w)(sy := Some ?p),
       awaiting := awaiting w @ [(c, ?p, sy, True)]\<rparr>"
  have first: "getStockPrice_call w c sy t = ?w1"
    using assms by (simp add: getStockPrice_call_def Let_def)
  have "calls ?w1 sy cs
      = ?w1\<lparr>awaiting := awaiting ?w1 @ map (\<lambda>(caller, now). (caller, ?p, sy, False)) cs\<rparr>"
    using assms by (intro calls_join) (auto simp: fresh_def)
  then show ?thesis
    using first by simp
qed

lemma resume_same [simp]:
  "issued (resume p v as w) = issued w"
  "cache (resume p v as w) = cache w"
  "inflight (resume p v as w) = inflight w"
  "awaiting (resume p v as w) = awaiting w"
  by (induction p v as w rule: resume.induct) auto

lemma resume_returned_member:
  "(caller, p, sy, owner) \<in> set as \<Longrightarrow> returned (resume p v as w) caller = Some v"
proof (induction p v as w rule: resume.induct)
  case (1 p v w)
  then show ?case by simp
next
  case (2 p v caller' q sy' owner' rest w)
  show ?case
  proof (cases "(caller, p, sy, owner) \<in> set rest")
    case True
    then show ?thesis
      using 2 by simp
  next
    case False
    then have here: "caller' = caller" "q = p"
      using "2.prems" by auto
    have keep: "returned (resume p v rest w0) caller = Some v" if "returned w0 caller = Some v"
      for w0
      using that by (induction p v rest w0 rule: resume.induct) auto
    show ?thesis
      using here by (simp add: keep)
  qed
qed

lemma resume_pending_owner:
  "(caller, p, sy, True) \<in> set as \<Longrightarrow> pendingRequests (resume p v as w) sy = None"
proof (induction p v as w rule: resume.induct)
  case (1 p v w)
  then show ?case by simp
next
  case (2 p v caller' q sy' owner' rest w)
  show ?case
  proof (cases "(caller, p, sy, True) \<in> set rest")
    case True
    then show ?thesis
      using 2 by simp
  next
    case False
    then have here: "q = p" "sy' = sy" "owner'"
      using "2.prems" by auto
    have keep: "pendingRequests (resume p v rest w0) sy = None" if "pendingRequests w0 sy = None"
      for w0
      using that by (induction p v rest w0 rule: resume.induct) auto
    show ?thesis
      using here by (simp add: keep)
  qed
qed

text \<open>
  Calls for one symbol that follow one another directly: the request log grows by the one
  request, the first caller owns the promise, and all callers receive its value.
\<close>

lemma calls_share_one_request:
  assumes "cs \<noteq> []" and "pendingRequests w sy = None"
    and "\<forall>(caller, now)\<in>set cs. \<not> fresh w sy now"
  shows "issued (calls w sy cs) = issued w @ [sy]
     \<and> pendingRequests (calls w sy [hd cs]) sy = Some (length (issued w))
     \<and> pendingRequests (calls w sy cs) sy = Some (length (issued w))
     \<and> inflight (calls w sy cs) (length (issued w)) = Some sy
     \<and> awaiting (calls w sy cs) = awaiting w
          @ (fst (hd cs), length (issued w), sy, True)
          # map (\<lambda>(caller, now). (caller, length (issued w), sy, False)) (tl cs)
     \<and> (\<forall>outcome now.
          issued (settle (calls w sy cs) (length (issued w)) outcome now) = issued w @ [sy]
          \<and> pendingRequests (settle (calls w sy cs) (length (issued w)) outcome now) sy = None
          \<and> (\<forall>(caller, t)\<in>set cs.
                returned (settle (calls w sy cs) (length (issued w)) outcome now) caller
                  = Some (fst (fetchStockData outcome sy now (cache w)))))"
proof -
  obtain c t rest where cs: "cs = (c, t) # rest"
    using assms(1) by (cases cs) auto
  define p where "p = length (issued w)"
  define w' where "w' = calls w sy cs"
  have w': "w' = w\<lparr>issued := issued w @ [sy],
       inflight := (inflight w)(p := Some sy),
       pendingRequests := (pendingRequests w)(sy := Some p),
       awaiting := awaiting w @ (c, p, sy, True)
          # map (\<lambda>(caller, now). (caller, p, sy, False)) rest\<rparr>"
    using calls_first [of w sy c t rest] assms(2,3) cs by (simp add: w'_def p_def)
  have one: "pendingRequests (calls w sy [hd cs]) sy = Some p"
    using calls_first [of w sy c t "[]"] assms(2,3) cs by (simp add: p_def)
  have aw: "awaiting w' = awaiting w @ (c, p, sy, True)
          # map (\<lambda>(caller, now). (caller, p, sy, False)) rest"
    and fl: "inflight w' p = Some sy" and ca: "cache w' = cache w"
    and iss: "issued w' = issued w @ [sy]" and pe: "pendingRequests w' sy = Some p"
    by (simp_all add: w')
  have members: "\<exists>owner. (caller, p, sy, owner) \<in> set (awaiting w')"
    if mem: "(caller, t') \<in> set cs" for caller t'
  proof -
    consider "caller = c" | "(caller, t') \<in> set rest"
      using mem cs by auto
    then show ?thesis
    proof cases
      case 1
      then have "(caller, p, sy, True) \<in> set (awaiting w')"
        by (simp add: aw)
      then show ?thesis ..
    next
      case 2
      then have "(caller, p, sy, False) \<in> (\<lambda>(caller, now). (caller, p, sy, False)) ` set rest"
        by (rule rev_image_eqI) simp
      then have "(caller, p, sy, False) \<in> set (awaiting w')"
        by (simp add: aw)
      then show ?thesis ..
    qed
  qed
  have owner: "(c, p, sy, True) \<in> set (awaiting w')"
    by (simp add: aw)
  have settled: "issued (settle w' p outcome now) = issued w @ [sy]
          \<and> pendingRequests (settle w' p outcome now) sy = None
          \<and> (\<forall>(caller, t)\<in>set cs.
                returned (settle w' p outcome now) caller
                  = Some (fst (fetchStockData outcome sy now (cache w))))" for outcome now
  proof -
    obtain v c' where f: "fetchStockData outcome sy now (cache w) = (v, c')"
      by (cases "fetchStockData outcome sy now (cache w)")
    define w1 where "w1 = w'\<lparr>cache := c', inflight := (inflight w')(p := None)\<rparr>"
    have s: "settle w' p outcome now =
       (resume p v (awaiting w') w1)
         \<lparr>awaiting := filter (\<lambda>(caller, q, sy', owner). q \<noteq> p) (awaiting w')\<rparr>"
      by (simp add: settle_def fl ca f Let_def w1_def)
    have 1: "issued (settle w' p outcome now) = issued w @ [sy]"
      by (simp add: s w1_def iss)
    have 2: "pendingRequests (settle w' p outcome now) sy = None"
      using owner by (simp add: s resume_pending_owner)
    have 3: "returned (settle w' p outcome now) caller = Some v" if "(caller, t') \<in> set cs"
      for caller t'
      using members [OF that] by (auto simp add: s resume_returned_member)
    show ?thesis
      using 1 2 3 f by auto
  qed
  have "awaiting w' = awaiting w @ (fst (hd cs), p, sy, True)
          # map (\<lambda>(caller, now). (caller, p, sy, False)) (tl cs)"
    using aw cs by simp
  then show ?thesis
    using settled one fl iss pe unfolding w'_def p_def by blast
qed

lemma resume_pending_other:
  "\<forall>(caller, q, s, owner)\<in>set as. s = sy \<longrightarrow> q \<noteq> p \<Longrightarrow>
   pendingRequests (resume p v as w) sy = pendingRequests w sy"
  by (induction p v as w rule: resume.induct) auto

lemma joined_snoc: "cs \<noteq> [] \<Longrightarrow> joined sy p cs @ [(c, p, sy, False)] = joined sy p (cs @ [c])"
  by (cases cs) (simp_all add: joined_def)

lemma sharing_call_same:
  assumes "sharing sy p cs w" and "\<not> fresh w sy now"
  shows "sharing sy p (cs @ [c]) (getStockPrice_call w c sy now)"
    and "issued (getStockPrice_call w c sy now) = issued w"
    and "cache (getStockPrice_call w c sy now) = cache w"
  using assms by (simp_all add: sharing_def getStockPrice_call_def forSymbol_def joined_snoc)

lemma call_cache: "cache (getStockPrice_call w c s now) = cache w"
  by (simp add: getStockPrice_call_def Let_def split: option.splits prod.splits)

lemma sharing_call_other:
  assumes "sharing sy p cs w" and "s \<noteq> sy"
  shows "sharing sy p cs (getStockPrice_call w c s now)"
    and "count_list (issued (getStockPrice_call w c s now)) sy = count_list (issued w) sy"
  using assms
  by (auto simp add: sharing_def getStockPrice_call_def forSymbol_def Let_def
      split: option.splits prod.splits)

lemma settle_unfold:
  "inflight w q = Some s \<Longrightarrow>
   settle w q outcome now =
     (resume q (fst (fetchStockData outcome s now (cache w))) (awaiting w)
        (w\<lparr>cache := snd (fetchStockData outcome s now (cache w)),
           inflight := (inflight w)(q := None)\<rparr>))
       \<lparr>awaiting := filter (\<lambda>(caller, q', sy', owner). q' \<noteq> q) (awaiting w)\<rparr>"
  by (simp add: settle_def Let_def split: prod.splits)

lemma settle_issued: "issued (settle w q outcome now) = issued w"
proof (cases "inflight w q")
  case None
  then show ?thesis by (simp add: settle_def)
next
  case (Some s)
  then show ?thesis by (simp add: settle_unfold)
qed

lemma fetch_cache_other:
  "s \<noteq> sy \<Longrightarrow> snd (fetchStockData outcome s now c) sy = c sy"
  by (simp add: fetchStockData_def fetchStockData_body_def
      split: fetch_outcome.splits option.splits sum.splits)

lemma settle_cache_other:
  assumes "inflight w q \<noteq> Some sy"
  shows "cache (settle w q outcome now) sy = cache w sy"
proof (cases "inflight w q")
  case None
  then show ?thesis by (simp add: settle_def)
next
  case (Some s)
  then have "s \<noteq> sy"
    using assms by simp
  then show ?thesis
    using Some by (simp add: settle_unfold fetch_cache_other)
qed

lemma forSymbol_mem:
  "forSymbol sy entries = joined sy p cs \<Longrightarrow> (c, q, sy, owner) \<in> set entries \<Longrightarrow> q = p"
proof -
  assume eq: "forSymbol sy entries = joined sy p cs" and mem: "(c, q, sy, owner) \<in> set entries"
  have "(c, q, sy, owner) \<in> set (forSymbol sy entries)"
    using mem by (simp add: forSymbol_def)
  then have "(c, q, sy, owner) \<in> set (joined sy p cs)"
    by (simp only: eq)
  then show "q = p"
    by (auto simp: joined_def)
qed

lemma forSymbol_filter:
  assumes "forSymbol sy entries = joined sy p cs" and "q \<noteq> p"
  shows "forSymbol sy (filter (\<lambda>(caller, q', sy', owner). q' \<noteq> q) entries) = forSymbol sy entries"
proof -
  have "\<forall>x\<in>set entries. (case x of (caller, q', s, owner) \<Rightarrow> s = sy) \<longrightarrow>
      (case x of (caller, q', s, owner) \<Rightarrow> q' \<noteq> q)"
    using forSymbol_mem [OF assms(1)] assms(2) by auto
  then show ?thesis
    unfolding forSymbol_def filter_filter by (intro filter_cong) auto
qed

lemma sharing_settle_other:
  assumes "sharing sy p cs w" and "inflight w q \<noteq> Some sy"
  shows "sharing sy p cs (settle w q outcome now)"
proof (cases "inflight w q")
  case None
  then show ?thesis
    using assms by (simp add: settle_def)
next
  case (Some s)
  have qp: "q \<noteq> p"
    using assms by (auto simp: sharing_def)
  have fs: "forSymbol sy (awaiting w) = joined sy p cs"
    using assms(1) by (simp add: sharing_def)
  have other: "\<forall>(caller, q', s', owner)\<in>set (awaiting w). s' = sy \<longrightarrow> q' \<noteq> q"
    using forSymbol_mem [OF fs] qp by auto
  show ?thesis
    using assms(1) qp other forSymbol_filter [OF fs qp]
    by (simp add: sharing_def settle_unfold [OF Some] resume_pending_other)
qed

lemma sharing_run:
  "sharing sy p cs w \<Longrightarrow> beforeSettle sy w es \<Longrightarrow>
   sharing sy p (cs @ callersOf sy es) (srun w es)
   \<and> count_list (issued (srun w es)) sy = count_list (issued w) sy
   \<and> cache (srun w es) sy = cache w sy"
proof (induction es arbitrary: w cs)
  case Nil
  then show ?case by simp
next
  case (Cons e es)
  show ?case
  proof (cases e)
    case (CallE c s now)
    show ?thesis
    proof (cases "s = sy")
      case True
      have nf: "\<not> fresh w sy now"
        using Cons.prems(2) CallE True by simp
      have "sharing sy p ((cs @ [c]) @ callersOf sy es) (srun (getStockPrice_call w c sy now) es)
        \<and> count_list (issued (srun (getStockPrice_call w c sy now) es)) sy
            = count_list (issued (getStockPrice_call w c sy now)) sy
        \<and> cache (srun (getStockPrice_call w c sy now) es) sy
            = cache (getStockPrice_call w c sy now) sy"
        using Cons.prems CallE True sharing_call_same(1) [OF Cons.prems(1) nf]
        by (intro Cons.IH) simp_all
      then show ?thesis
        using CallE True sharing_call_same(2,3) [OF Cons.prems(1) nf] by simp
    next
      case False
      have "sharing sy p (cs @ callersOf sy es) (srun (getStockPrice_call w c s now) es)
        \<and> count_list (issued (srun (getStockPrice_call w c s now) es)) sy
            = count_list (issued (getStockPrice_call w c s now)) sy
        \<and> cache (srun (getStockPrice_call w c s now) es) sy
            = cache (getStockPrice_call w c s now) sy"
        using Cons.prems CallE False sharing_call_other(1) [OF Cons.prems(1) False]
        by (intro Cons.IH) simp_all
      then show ?thesis
        using CallE False sharing_call_other(2) [OF Cons.prems(1) False] by (simp add: call_cache)
    qed
  next
    case (SettleE q outcome now)
    have ns: "inflight w q \<noteq> Some sy"
      using Cons.prems(2) SettleE by simp
    have "sharing sy p (cs @ callersOf sy es) (srun (settle w q outcome now) es)
        \<and> count_list (issued (srun (settle w q outcome now) es)) sy
            = count_list (issued (settle w q outcome now)) sy
        \<and> cache (srun (settle w q outcome now) es) sy = cache (settle w q outcome now) sy"
      using Cons.prems SettleE sharing_settle_other [OF Cons.prems(1) ns]
      by (intro Cons.IH) simp_all
    then show ?thesis
      using SettleE by (simp add: settle_issued settle_cache_other [OF ns])
  qed
qed

lemma idle_call_other:
  assumes "idle sy w" and "s \<noteq> sy"
  shows "idle sy (getStockPrice_call w c s now)"
    and "count_list (issued (getStockPrice_call w c s now)) sy = count_list (issued w) sy"
  using assms
  by (auto simp add: idle_def getStockPrice_call_def forSymbol_def Let_def
      split: option.splits prod.splits)

lemma idle_call_same:
  assumes "idle sy w" and "\<not> fresh w sy now"
  shows "sharing sy (length (issued w)) [c] (getStockPrice_call w c sy now)"
    and "count_list (issued (getStockPrice_call w c sy now)) sy = count_list (issued w) sy + 1"
  using assms
  by (simp_all add: idle_def sharing_def getStockPrice_call_def forSymbol_def Let_def joined_def)

lemma idle_settle_other:
  assumes "idle sy w" and "inflight w q \<noteq> Some sy"
  shows "idle sy (settle w q outcome now)"
proof (cases "inflight w q")
  case None
  then show ?thesis
    using assms by (simp add: settle_def)
next
  case (Some s)
  have none: "\<forall>(caller, q', s', owner)\<in>set (awaiting w). s' \<noteq> sy"
    using assms(1) by (auto simp: idle_def forSymbol_def filter_empty_conv)
  then have other: "\<forall>(caller, q', s', owner)\<in>set (awaiting w). s' = sy \<longrightarrow> q' \<noteq> q"
    by auto
  have "forSymbol sy (filter (\<lambda>(caller, q', sy', owner). q' \<noteq> q) (awaiting w)) = []"
    using none by (auto simp: forSymbol_def filter_empty_conv)
  then show ?thesis
    using assms(1) other
    by (simp add: idle_def settle_unfold [OF Some] resume_pending_other)
qed

lemma idle_run:
  "idle sy w \<Longrightarrow> beforeSettle sy w es \<Longrightarrow> callersOf sy es \<noteq> [] \<Longrightarrow>
   \<exists>p. sharing sy p (callersOf sy es) (srun w es)
     \<and> count_list (issued (srun w es)) sy = count_list (issued w) sy + 1"
proof (induction es arbitrary: w)
  case Nil
  then show ?case by simp
next
  case (Cons e es)
  show ?case
  proof (cases e)
    case (CallE c s now)
    show ?thesis
    proof (cases "s = sy")
      case True
      have nf: "\<not> fresh w sy now"
        using Cons.prems(2) CallE True by simp
      have bs: "beforeSettle sy (getStockPrice_call w c sy now) es"
        using Cons.prems(2) CallE True by simp
      note first = idle_call_same [OF Cons.prems(1) nf, of c]
      note rest = sharing_run [OF first(1) bs]
      show ?thesis
        using first(2) rest CallE True by auto
    next
      case False
      have "\<exists>p. sharing sy p (callersOf sy es) (srun (getStockPrice_call w c s now) es)
        \<and> count_list (issued (srun (getStockPrice_call w c s now) es)) sy
            = count_list (issued (getStockPrice_call w c s now)) sy + 1"
        using Cons.prems CallE False idle_call_other(1) [OF Cons.prems(1) False]
        by (intro Cons.IH) simp_all
      then show ?thesis
        using CallE False idle_call_other(2) [OF Cons.prems(1) False] by simp
    qed
  next
    case (SettleE q outcome now)
    have ns: "inflight w q \<noteq> Some sy"
      using Cons.prems(2) SettleE by simp
    have "\<exists>p. sharing sy p (callersOf sy es) (srun (settle w q outcome now) es)
        \<and> count_list (issued (srun (settle w q outcome now) es)) sy
            = count_list (issued (settle w q outcome now)) sy + 1"
      using Cons.prems SettleE idle_settle_other [OF Cons.prems(1) ns]
      by (intro Cons.IH) simp_all
    then show ?thesis
      using SettleE by (simp add: settle_issued)
  qed
qed


lemma joined_members:
  "cs \<noteq> [] \<Longrightarrow> c \<in> set cs \<Longrightarrow> \<exists>owner. (c, p, sy, owner) \<in> set (joined sy p cs)"
  by (cases cs) (auto simp: joined_def)

lemma forSymbol_subset: "set (forSymbol sy entries) \<subseteq> set entries"
  by (auto simp: forSymbol_def)

text \<open>
  Claim C1. Let no request for the symbol be pending and no call for it be suspended.
  Take any sequence of events that happen before the fetch for the symbol settles (calls
  for any symbols, answers to the requests for other symbols), in which the calls for the
  symbol find no fresh cache entry and of which \<open>N \<ge> 1\<close> are calls for the symbol. Then
  exactly one network request for the symbol has been issued; its promise is in the
  pending-request map, created by the first of the \<open>N\<close> calls and awaited by all of them.
  When the request settles, with whatever outcome, no further request has been issued, the
  pending entry is gone, and each of the \<open>N\<close> callers has received the one value
  \<open>fetchStockData\<close> resolved to.
\<close>

theorem getStockPrice_deduplicates:
  assumes "pendingRequests w sy = None" and "forSymbol sy (awaiting w) = []"
    and "beforeSettle sy w es" and "callersOf sy es \<noteq> []"
  shows "count_list (issued (srun w es)) sy = count_list (issued w) sy + 1
     \<and> (\<exists>p. pendingRequests (srun w es) sy = Some p
           \<and> inflight (srun w es) p = Some sy
           \<and> forSymbol sy (awaiting (srun w es)) = joined sy p (callersOf sy es)
           \<and> (\<forall>outcome now.
                 count_list (issued (settle (srun w es) p outcome now)) sy
                   = count_list (issued w) sy + 1
                 \<and> pendingRequests (settle (srun w es) p outcome now) sy = None
                 \<and> (\<forall>c\<in>set (callersOf sy es).
                       returned (settle (srun w es) p outcome now) c
                         = Some (fst (fetchStockData outcome sy now (cache (srun w es)))))))"
proof -
  define w' where "w' = srun w es"
  define cs where "cs = callersOf sy es"
  have "idle sy w"
    using assms(1,2) by (simp add: idle_def)
  then obtain p where sh: "sharing sy p cs w'"
    and cnt: "count_list (issued w') sy = count_list (issued w) sy + 1"
    using idle_run [OF _ assms(3,4)] unfolding w'_def cs_def by blast
  have pe: "pendingRequests w' sy = Some p" and fl: "inflight w' p = Some sy"
    and aw: "forSymbol sy (awaiting w') = joined sy p cs" and ne: "cs \<noteq> []"
    using sh by (simp_all add: sharing_def)
  have owner: "(hd cs, p, sy, True) \<in> set (awaiting w')"
    using forSymbol_subset [of sy "awaiting w'"] unfolding aw by (auto simp: joined_def)
  have members: "\<exists>owner. (c, p, sy, owner) \<in> set (awaiting w')" if c: "c \<in> set cs" for c
    using joined_members [OF ne c, of p sy] forSymbol_subset [of sy "awaiting w'"]
    unfolding aw by blast
  have settled: "count_list (issued (settle w' p outcome now)) sy = count_list (issued w) sy + 1
      \<and> pendingRequests (settle w' p outcome now) sy = None
      \<and> (\<forall>c\<in>set cs. returned (settle w' p outcome now) c
            = Some (fst (fetchStockData outcome sy now (cache w'))))" for outcome now
  proof -
    note s = settle_unfold [OF fl, of outcome now]
    have 1: "count_list (issued (settle w' p outcome now)) sy = count_list (issued w) sy + 1"
      using cnt by (simp add: settle_issued)
    have 2: "pendingRequests (settle w' p outcome now) sy = None"
      using owner by (simp add: s resume_pending_owner)
    have 3: "returned (settle w' p outcome now) c
        = Some (fst (fetchStockData outcome sy now (cache w')))" if c: "c \<in> set cs" for c
      using members [OF c] by (auto simp add: s resume_returned_member)
    show ?thesis
      using 1 2 3 by blast
  qed
  show ?thesis
    using cnt pe fl aw settled unfolding w'_def cs_def by blast
qed

lemma mixed_run:
  "srun newWorld mixedEvents =
     \<lparr>cache = (\<lambda>sy. None),
      pendingRequests = (\<lambda>sy. None)(str ''TCS'' := Some 0),
      issued = [str ''TCS'', str ''INFY''],
      inflight = (\<lambda>p. None)(0 := Some (str ''TCS'')),
      awaiting = [(1, 0, str ''TCS'', True), (3, 0, str ''TCS'', False),
                  (4, 0, str ''TCS'', False)],
      returned = (\<lambda>c. None)(2 := Some None)\<rparr>"
  by (simp add: mixedEvents_def newWorld_def getStockPrice_call_def fresh_def settle_def
      fetchStockData_def fetchStockData_body_def str_def Let_def fun_upd_twist)

theorem getStockPrice_deduplicates_witness:
  "pendingRequests newWorld (str ''TCS'') = None
   \<and> forSymbol (str ''TCS'') (awaiting newWorld) = []
   \<and> beforeSettle (str ''TCS'') newWorld mixedEvents
   \<and> callersOf (str ''TCS'') mixedEvents = [1, 3, 4]
   \<and> count_list (issued (srun newWorld mixedEvents)) (str ''TCS'') = 1
   \<and> pendingRequests (srun newWorld mixedEvents) (str ''TCS'') = Some 0
   \<and> pendingRequests (settle (srun newWorld mixedEvents) 0 Rejected 900) (str ''TCS'') = None
   \<and> returned (settle (srun newWorld mixedEvents) 0 Rejected 900) 4 = Some None"
proof -
  have p: "pendingRequests newWorld (str ''TCS'') = None"
    and a: "forSymbol (str ''TCS'') (awaiting newWorld) = []"
    by (simp_all add: newWorld_def forSymbol_def)
  have b: "beforeSettle (str ''TCS'') newWorld mixedEvents"
    by (simp add: mixedEvents_def newWorld_def getStockPrice_call_def fresh_def settle_def
        fetchStockData_def fetchStockData_body_def str_def Let_def)
  have c: "callersOf (str ''TCS'') mixedEvents = [1, 3, 4]"
    by (simp add: mixedEvents_def str_def)
  have n: "callersOf (str ''TCS'') mixedEvents \<noteq> []"
    by (simp add: c)
  have r: "fst (fetchStockData Rejected (str ''TCS'') 900 (cache (srun newWorld mixedEvents))) = None"
    by (simp add: fetchStockData_def fetchStockData_body_def)
  have pe: "pendingRequests (srun newWorld mixedEvents) (str ''TCS'') = Some 0"
    by (simp add: mixed_run)
  show ?thesis
    using getStockPrice_deduplicates [OF p a b n] p a b c r pe
    by (auto simp add: newWorld_def)
qed

text \<open>
  Claim C2. When the cache holds an entry for the symbol whose age is below 120000 ms, the
  call returns the cached object itself and changes nothing else: no network request is
  issued, and nothing becomes pending or in flight.
\<close>

theorem getStockPrice_cache_hit:
  "cache w sy = Some (d, timestamp) \<Longrightarrow> now - timestamp < 120000 \<Longrightarrow>
   returned (getStockPrice_call w caller sy now) caller = Some (Some d)
   \<and> issued (getStockPrice_call w caller sy now) = issued w
   \<and> inflight (getStockPrice_call w caller sy now) = inflight w
   \<and> pendingRequests (getStockPrice_call w caller sy now) = pendingRequests w
   \<and> awaiting (getStockPrice_call w caller sy now) = awaiting w
   \<and> cache (getStockPrice_call w caller sy now) = cache w"
  by (simp add: getStockPrice_call_def fresh_def CACHE_DURATION_def)

theorem getStockPrice_cache_hit_witness:
  "cache cachedWorld (str ''TCS'') = Some (somePrice, 1000) \<and> (120999::int) - 1000 < 120000
   \<and> returned (getStockPrice_call cachedWorld 7 (str ''TCS'') 120999) 7 = Some (Some somePrice)
   \<and> issued (getStockPrice_call cachedWorld 7 (str ''TCS'') 120999) = [str ''TCS'']"
proof -
  have c: "cache cachedWorld (str ''TCS'') = Some (somePrice, 1000)"
    by (simp add: cachedWorld_def)
  have t: "(120999::int) - 1000 < 120000"
    by simp
  show ?thesis
    using getStockPrice_cache_hit [OF c t, of 7] c by (simp add: cachedWorld_def)
qed

section \<open>Properties of getMultipleStockPrices\<close>

lemma batches_Nil [simp]: "batches [] = []"
  by (simp add: batches.simps)

lemma batches_Cons: "xs \<noteq> [] \<Longrightarrow> batches xs = take 3 xs # batches (drop 3 xs)"
  by (subst batches.simps) simp

lemma batches_empty_iff: "batches xs = [] \<longleftrightarrow> xs = []"
  by (subst batches.simps) simp

lemma concat_batches: "concat (batches xs) = xs"
  by (induction xs rule: batches.induct) (subst batches.simps, simp)

lemma batches_length: "b \<in> set (batches xs) \<Longrightarrow> 0 < length b \<and> length b \<le> 3"
proof (induction xs rule: batches.induct)
  case (1 xs)
  show ?case
  proof (cases "xs = []")
    case True
    then show ?thesis using "1.prems" by simp
  next
    case False
    then show ?thesis
      using 1 by (auto simp: batches_Cons)
  qed
qed

lemma batches_full: "Suc k < length (batches xs) \<Longrightarrow> length (batches xs ! k) = 3"
proof (induction xs arbitrary: k rule: batches.induct)
  case (1 xs)
  show ?case
  proof (cases "xs = []")
    case True
    then show ?thesis using "1.prems" by simp
  next
    case False
    have more: "drop 3 xs \<noteq> []"
      using "1.prems" False by (auto simp: batches_Cons batches_empty_iff)
    show ?thesis
    proof (cases k)
      case 0
      then show ?thesis
        using False more by (simp add: batches_Cons)
    next
      case (Suc k')
      then show ?thesis
        using "1.IH" [OF False, of k'] "1.prems" False by (simp add: batches_Cons)
    qed
  qed
qed

lemma batchTrace_Cons:
  "batchTrace (b # bs) =
     map Issue b @ [Joined] @ (if bs = [] then [] else Sleep 500 # batchTrace bs)"
  by (cases bs) simp_all

lemma loop_trace:
  "snd (getMultipleStockPrices_loop resolved symbols i results tr)
     = tr @ batchTrace (batches (drop i symbols))"
proof (induction resolved symbols i results tr rule: getMultipleStockPrices_loop.induct)
  case (1 resolved symbols i results tr)
  show ?case
  proof (cases "i < length symbols")
    case True
    let ?batch = "slice symbols i (i + batchSize)"
    let ?tr' = "tr @ map Issue ?batch @ [Joined]
                   @ (if i + batchSize < length symbols then [Sleep 500] else [])"
    let ?results' = "setResults (zip ?batch (map resolved [i ..< i + length ?batch])) results"
    have ih: "snd (getMultipleStockPrices_loop resolved symbols (i + batchSize) ?results' ?tr')
        = ?tr' @ batchTrace (batches (drop (i + batchSize) symbols))"
      by (rule "1.IH" [OF True refl refl refl refl])
    have unfold: "getMultipleStockPrices_loop resolved symbols i results tr
        = getMultipleStockPrices_loop resolved symbols (i + batchSize) ?results' ?tr'"
      using True by (subst getMultipleStockPrices_loop.simps) (simp only: Let_def if_True)
    have b: "batches (drop i symbols) = ?batch # batches (drop (i + batchSize) symbols)"
      using True by (simp add: batches_Cons slice_def batchSize_def add.commute)
    have e: "batches (drop (i + batchSize) symbols) = [] \<longleftrightarrow> \<not> i + batchSize < length symbols"
      by (auto simp: batches_empty_iff)
    show ?thesis
      unfolding unfold ih b batchTrace_Cons e by simp
  next
    case False
    then show ?thesis
      by (subst getMultipleStockPrices_loop.simps) simp
  qed
qed

lemma inFlight_append: "inFlight (xs @ ys) n = inFlight ys (inFlight xs n)"
  by (induction xs n rule: inFlight.induct) simp_all

lemma inFlight_Issue: "inFlight (map Issue b) n = n + length b"
  by (induction b arbitrary: n) simp_all

lemma inFlight_batch:
  assumes "length b \<le> 3" and "\<And>m. inFlight (take m rest) 0 \<le> 3"
  shows "inFlight (take n (map Issue b @ Joined # rest)) 0 \<le> 3"
proof (cases "n \<le> length b")
  case True
  then have "take n (map Issue b @ Joined # rest) = map Issue (take n b)"
    by (simp add: take_map)
  then show ?thesis
    using assms(1) by (simp add: inFlight_Issue)
next
  case False
  then have "take n (map Issue b @ Joined # rest)
      = map Issue b @ Joined # take (n - length b - 1) rest"
    by (simp add: take_Cons' not_le)
  then show ?thesis
    using assms(2) by (simp add: inFlight_append)
qed

lemma inFlight_batchTrace:
  "\<forall>b\<in>set bs. length b \<le> 3 \<Longrightarrow> inFlight (take n (batchTrace bs)) 0 \<le> 3"
proof (induction bs arbitrary: n rule: batchTrace.induct)
  case 1
  then show ?case by simp
next
  case (2 b)
  have "inFlight (take n (map Issue b @ Joined # [])) 0 \<le> 3"
    using 2 by (intro inFlight_batch) simp_all
  then show ?case by simp
next
  case (3 b b' bs)
  have rest: "inFlight (take m (Sleep 500 # batchTrace (b' # bs))) 0 \<le> 3" for m
    using "3.IH" [of "m - 1"] "3.prems" by (cases m) simp_all
  have "inFlight (take n (map Issue b @ Joined # Sleep 500 # batchTrace (b' # bs))) 0 \<le> 3"
    using "3.prems" rest by (intro inFlight_batch) simp_all
  then show ?case by simp
qed

lemma setResults_lookup:
  "setResults ps results sy = Some r \<Longrightarrow> results sy = Some r \<or> (sy, Some r) \<in> set ps"
  by (induction ps results rule: setResults.induct) (auto split: if_splits)

lemma setResults_defined:
  "setResults ps results sy \<noteq> None \<longleftrightarrow> results sy \<noteq> None \<or> (\<exists>r. (sy, Some r) \<in> set ps)"
proof (induction ps results rule: setResults.induct)
  case (1 results)
  then show ?case by simp
next
  case (2 s rest results)
  then show ?case by simp
next
  case (3 s r rest results)
  have "setResults ((s, Some r) # rest) results sy \<noteq> None \<longleftrightarrow>
      (results(s := Some r)) sy \<noteq> None \<or> (\<exists>r'. (sy, Some r') \<in> set rest)"
    using "3.IH" by (simp add: fun_upd_def)
  also have "\<dots> \<longleftrightarrow> results sy \<noteq> None \<or> (\<exists>r'. (sy, Some r') \<in> set ((s, Some r) # rest))"
    by (cases "sy = s") auto
  finally show ?case .
qed

lemma slice_length: "length (slice xs i (i + n)) = min n (length xs - i)"
  by (simp add: slice_def)

lemma slice_nth:
  assumes "k < length (slice xs i (i + n))"
  shows "slice xs i (i + n) ! k = xs ! (i + k)"
proof -
  have "k < n" "i + k < length xs"
    using assms by (auto simp: slice_length)
  then show ?thesis
    by (simp add: slice_def)
qed

lemma zip_batch:
  "(sy, v) \<in> set (zip (slice symbols i (i + n))
        (map resolved [i ..< i + length (slice symbols i (i + n))]))
   \<longleftrightarrow> (\<exists>j. i \<le> j \<and> j < i + n \<and> j < length symbols \<and> symbols ! j = sy \<and> resolved j = v)"
proof
  assume "(sy, v) \<in> set (zip (slice symbols i (i + n))
        (map resolved [i ..< i + length (slice symbols i (i + n))]))"
  then obtain k where k: "k < length (slice symbols i (i + n))"
      "slice symbols i (i + n) ! k = sy" "resolved (i + k) = v"
    by (auto simp: set_zip)
  have "k < n" "i + k < length symbols"
    using k(1) by (auto simp: slice_length)
  then have "i \<le> i + k \<and> i + k < i + n \<and> i + k < length symbols \<and> symbols ! (i + k) = sy
      \<and> resolved (i + k) = v"
    using k slice_nth [OF k(1)] by simp
  then show "\<exists>j. i \<le> j \<and> j < i + n \<and> j < length symbols \<and> symbols ! j = sy \<and> resolved j = v"
    by blast
next
  assume "\<exists>j. i \<le> j \<and> j < i + n \<and> j < length symbols \<and> symbols ! j = sy \<and> resolved j = v"
  then obtain j where j: "i \<le> j" "j < i + n" "j < length symbols" "symbols ! j = sy"
      "resolved j = v"
    by blast
  define k where "k = j - i"
  have ik: "i + k = j"
    using j(1) by (simp add: k_def)
  have kl: "k < length (slice symbols i (i + n))"
    using j(2,3) ik by (simp add: slice_length)
  have "slice symbols i (i + n) ! k = sy"
    using slice_nth [OF kl] ik j(4) by simp
  moreover have "map resolved [i ..< i + length (slice symbols i (i + n))] ! k = v"
    using kl ik j(5) by simp
  ultimately show "(sy, v) \<in> set (zip (slice symbols i (i + n))
        (map resolved [i ..< i + length (slice symbols i (i + n))]))"
    using kl unfolding set_zip by auto
qed

lemma loop_defined:
  "fst (getMultipleStockPrices_loop resolved symbols i results tr) sy \<noteq> None \<longleftrightarrow>
   results sy \<noteq> None
   \<or> (\<exists>j. i \<le> j \<and> j < length symbols \<and> symbols ! j = sy \<and> resolved j \<noteq> None)"
proof (induction resolved symbols i results tr rule: getMultipleStockPrices_loop.induct)
  case (1 resolved symbols i results tr)
  show ?case
  proof (cases "i < length symbols")
    case True
    let ?batch = "slice symbols i (i + batchSize)"
    let ?tr' = "tr @ map Issue ?batch @ [Joined]
                   @ (if i + batchSize < length symbols then [Sleep 500] else [])"
    let ?results' = "setResults (zip ?batch (map resolved [i ..< i + length ?batch])) results"
    have ih: "fst (getMultipleStockPrices_loop resolved symbols (i + batchSize) ?results' ?tr') sy
          \<noteq> None \<longleftrightarrow>
        ?results' sy \<noteq> None
        \<or> (\<exists>j. i + batchSize \<le> j \<and> j < length symbols \<and> symbols ! j = sy \<and> resolved j \<noteq> None)"
      by (rule "1.IH" [OF True refl refl refl refl])
    have unfold: "getMultipleStockPrices_loop resolved symbols i results tr
        = getMultipleStockPrices_loop resolved symbols (i + batchSize) ?results' ?tr'"
      using True by (subst getMultipleStockPrices_loop.simps) (simp only: Let_def if_True)
    have d: "?results' sy \<noteq> None \<longleftrightarrow> results sy \<noteq> None
        \<or> (\<exists>j. i \<le> j \<and> j < i + batchSize \<and> j < length symbols \<and> symbols ! j = sy
              \<and> resolved j \<noteq> None)"
      unfolding setResults_defined zip_batch by auto
    have split: "(\<exists>j. i \<le> j \<and> j < length symbols \<and> symbols ! j = sy \<and> resolved j \<noteq> None)
        \<longleftrightarrow> (\<exists>j. i \<le> j \<and> j < i + batchSize \<and> j < length symbols \<and> symbols ! j = sy
              \<and> resolved j \<noteq> None)
          \<or> (\<exists>j. i + batchSize \<le> j \<and> j < length symbols \<and> symbols ! j = sy
              \<and> resolved j \<noteq> None)"
      (is "?C \<longleftrightarrow> ?A \<or> ?B")
    proof
      assume ?C
      then obtain j where j: "i \<le> j" "j < length symbols" "symbols ! j = sy" "resolved j \<noteq> None"
        by blast
      show "?A \<or> ?B"
      proof (cases "j < i + batchSize")
        case True
        then have ?A using j by blast
        then show ?thesis ..
      next
        case False
        then have "i + batchSize \<le> j" by simp
        then have ?B using j by blast
        then show ?thesis ..
      qed
    next
      assume "?A \<or> ?B"
      then show ?C
      proof
        assume ?A then show ?C by blast
      next
        assume ?B
        then obtain j where "i + batchSize \<le> j" "j < length symbols" "symbols ! j = sy"
            "resolved j \<noteq> None"
          by blast
        moreover from this have "i \<le> j" by simp
        ultimately show ?C by blast
      qed
    qed
    show ?thesis
      unfolding unfold ih d split by blast
  next
    case False
    then show ?thesis
      by (subst getMultipleStockPrices_loop.simps) auto
  qed
qed

lemma loop_lookup:
  "fst (getMultipleStockPrices_loop resolved symbols i results tr) sy = Some r \<Longrightarrow>
   results sy = Some r \<or> (\<exists>j<length symbols. symbols ! j = sy \<and> resolved j = Some r)"
proof (induction resolved symbols i results tr rule: getMultipleStockPrices_loop.induct)
  case (1 resolved symbols i results tr)
  show ?case
  proof (cases "i < length symbols")
    case True
    let ?batch = "slice symbols i (i + batchSize)"
    let ?tr' = "tr @ map Issue ?batch @ [Joined]
                   @ (if i + batchSize < length symbols then [Sleep 500] else [])"
    let ?results' = "setResults (zip ?batch (map resolved [i ..< i + length ?batch])) results"
    have unfold: "getMultipleStockPrices_loop resolved symbols i results tr
        = getMultipleStockPrices_loop resolved symbols (i + batchSize) ?results' ?tr'"
      using True by (subst getMultipleStockPrices_loop.simps) (simp only: Let_def if_True)
    have next_step: "fst (getMultipleStockPrices_loop resolved symbols (i + batchSize) ?results' ?tr') sy
        = Some r"
      using "1.prems" unfolding unfold .
    have "?results' sy = Some r \<or> (\<exists>j<length symbols. symbols ! j = sy \<and> resolved j = Some r)"
      by (rule "1.IH" [OF True refl refl refl refl next_step])
    moreover have "results sy = Some r \<or> (\<exists>j<length symbols. symbols ! j = sy \<and> resolved j = Some r)"
      if here: "?results' sy = Some r"
      using setResults_lookup [OF here] unfolding zip_batch by blast
    ultimately show ?thesis by blast
  next
    case False
    then show ?thesis
      using "1.prems" by (subst (asm) getMultipleStockPrices_loop.simps) simp
  qed
qed

lemma setResults_all_None:
  "\<forall>x\<in>set ps. snd x = None \<Longrightarrow> setResults ps results = results"
  by (induction ps results rule: setResults.induct) auto

lemma loop_all_None:
  "\<forall>i. resolved i = None \<Longrightarrow>
   fst (getMultipleStockPrices_loop resolved symbols i results tr) = results"
proof (induction resolved symbols i results tr rule: getMultipleStockPrices_loop.induct)
  case (1 resolved symbols i results tr)
  show ?case
  proof (cases "i < length symbols")
    case True
    have same: "setResults (zip (slice symbols i (i + batchSize))
          (map resolved [i ..< i + length (slice symbols i (i + batchSize))])) results = results"
      using "1.prems" by (intro setResults_all_None) (auto simp: set_zip)
    have "fst (getMultipleStockPrices_loop resolved symbols (i + batchSize)
            (setResults (zip (slice symbols i (i + batchSize))
              (map resolved [i ..< i + length (slice symbols i (i + batchSize))])) results)
            (tr @ map Issue (slice symbols i (i + batchSize)) @ [Joined]
               @ (if i + batchSize < length symbols then [Sleep 500] else [])))
          = setResults (zip (slice symbols i (i + batchSize))
              (map resolved [i ..< i + length (slice symbols i (i + batchSize))])) results"
      using "1.IH" [OF True refl refl refl refl] "1.prems" by blast
    then show ?thesis
      using True same
      by (subst getMultipleStockPrices_loop.simps) (simp only: Let_def if_True)
  next
    case False
    then show ?thesis
      by (subst getMultipleStockPrices_loop.simps) simp
  qed
qed

lemma getMultipleStockPrices_all_None:
  "\<forall>i. resolved i = None \<Longrightarrow> fst (getMultipleStockPrices resolved symbols) = (\<lambda>sy. None)"
  by (simp add: getMultipleStockPrices_def loop_all_None)

text \<open>
  Claim C6. For every list of symbols and whatever the per-symbol promises resolve to, the
  trace of \<open>getMultipleStockPrices\<close> is the one of the partition into consecutive batches
  of three (the last possibly smaller): each batch is issued and joined before the next
  starts, with a sleep of 500 ms between two batches; at no point of the trace are more
  than three promises in flight; and the returned map is defined on exactly the symbols
  for which a promise resolved to a price, with such a price as value. The function
  always returns the map, also when promises resolved to null.
\<close>

theorem getMultipleStockPrices_batches:
  "snd (getMultipleStockPrices resolved symbols) = batchTrace (batches symbols)
   \<and> concat (batches symbols) = symbols
   \<and> (\<forall>b\<in>set (batches symbols). 0 < length b \<and> length b \<le> 3)
   \<and> (\<forall>k. Suc k < length (batches symbols) \<longrightarrow> length (batches symbols ! k) = 3)
   \<and> (\<forall>n. inFlight (take n (snd (getMultipleStockPrices resolved symbols))) 0 \<le> 3)
   \<and> (\<forall>sy. fst (getMultipleStockPrices resolved symbols) sy \<noteq> None
         \<longleftrightarrow> (\<exists>j<length symbols. symbols ! j = sy \<and> resolved j \<noteq> None))
   \<and> (\<forall>sy r. fst (getMultipleStockPrices resolved symbols) sy = Some r
         \<longrightarrow> (\<exists>j<length symbols. symbols ! j = sy \<and> resolved j = Some r))"
proof -
  have tr: "snd (getMultipleStockPrices resolved symbols) = batchTrace (batches symbols)"
    by (simp add: getMultipleStockPrices_def loop_trace)
  have fl: "inFlight (take n (snd (getMultipleStockPrices resolved symbols))) 0 \<le> 3" for n
    unfolding tr using batches_length by (intro inFlight_batchTrace) blast
  have d: "fst (getMultipleStockPrices resolved symbols) sy \<noteq> None
         \<longleftrightarrow> (\<exists>j<length symbols. symbols ! j = sy \<and> resolved j \<noteq> None)" for sy
    unfolding getMultipleStockPrices_def loop_defined by auto
  have l: "\<exists>j<length symbols. symbols ! j = sy \<and> resolved j = Some r"
    if "fst (getMultipleStockPrices resolved symbols) sy = Some r" for sy r
    using loop_lookup [of resolved symbols 0 "\<lambda>sy. None" "[]" sy r] that
    by (simp add: getMultipleStockPrices_def)
  have b1: "\<forall>b\<in>set (batches symbols). 0 < length b \<and> length b \<le> 3"
    using batches_length by blast
  have b2: "\<forall>k. Suc k < length (batches symbols) \<longrightarrow> length (batches symbols ! k) = 3"
    using batches_full by blast
  show ?thesis
    using tr concat_batches [of symbols] b1 b2 fl d l by blast
qed

lemma batches_five:
  "batches fiveSymbols
     = [[str ''AAPL'', str ''GOOGL'', str ''MSFT''], [str ''TSLA'', str ''NVDA'']]"
  by (simp add: fiveSymbols_def batches_Cons)

theorem getMultipleStockPrices_batches_witness:
  "snd (getMultipleStockPrices onlySecond fiveSymbols)
     = [Issue (str ''AAPL''), Issue (str ''GOOGL''), Issue (str ''MSFT''), Joined, Sleep 500,
        Issue (str ''TSLA''), Issue (str ''NVDA''), Joined]
   \<and> [str ''TSLA'', str ''NVDA''] \<in> set (batches fiveSymbols)
   \<and> length [str ''TSLA'', str ''NVDA''] \<le> 3
   \<and> Suc 0 < length (batches fiveSymbols) \<and> length (batches fiveSymbols ! 0) = 3
   \<and> inFlight (take 3 (snd (getMultipleStockPrices onlySecond fiveSymbols))) 0 \<le> 3
   \<and> fst (getMultipleStockPrices onlySecond fiveSymbols) (str ''GOOGL'') \<noteq> None
   \<and> fst (getMultipleStockPrices onlySecond fiveSymbols) (str ''AAPL'') = None"
proof -
  have g: "\<exists>j<length fiveSymbols. fiveSymbols ! j = str ''GOOGL'' \<and> onlySecond j \<noteq> None"
    by (rule exI [of _ 1]) (simp add: fiveSymbols_def onlySecond_def)
  have a: "\<not> (\<exists>j<length fiveSymbols. fiveSymbols ! j = str ''AAPL'' \<and> onlySecond j \<noteq> None)"
    by (auto simp add: fiveSymbols_def onlySecond_def str_def)
  note t = getMultipleStockPrices_batches [of onlySecond fiveSymbols]
  have tr: "snd (getMultipleStockPrices onlySecond fiveSymbols)
     = [Issue (str ''AAPL''), Issue (str ''GOOGL''), Issue (str ''MSFT''), Joined, Sleep 500,
        Issue (str ''TSLA''), Issue (str ''NVDA''), Joined]"
    using t by (simp add: batches_five)
  have fl: "inFlight (take 3 (snd (getMultipleStockPrices onlySecond fiveSymbols))) 0 \<le> 3"
    using t by blast
  have d: "fst (getMultipleStockPrices onlySecond fiveSymbols) sy \<noteq> None
         \<longleftrightarrow> (\<exists>j<length fiveSymbols. fiveSymbols ! j = sy \<and> onlySecond j \<noteq> None)" for sy
    using t by blast
  have 1: "fst (getMultipleStockPrices onlySecond fiveSymbols) (str ''GOOGL'') \<noteq> None"
    using d g by blast
  have 2: "fst (getMultipleStockPrices onlySecond fiveSymbols) (str ''AAPL'') = None"
    using d a by blast
  show ?thesis
    using tr fl 1 2 by (simp add: batches_five)
qed

section \<open>Properties of the real-time data provider\<close>

lemma fallback_positions: "map position getFallbackInvestments = fallbackTable"
  by (simp add: getFallbackInvestments_def mapIndexed_def USER_PORTFOLIO_CONFIG_def
      getFallbackInvestment_def fallbackPrices_def fallbackTable_def position_def str_def
      upt_rec [of 0] upt_rec [of 1] upt_rec [of 2] upt_rec [of 3] upt_rec [of 4] upt_rec [of 5])

lemma fallback_currentValue:
  "\<forall>x\<in>set getFallbackInvestments. currentValue x = nmul (price x) (quantity x)"
  by (simp add: getFallbackInvestments_def mapIndexed_def USER_PORTFOLIO_CONFIG_def
      getFallbackInvestment_def Let_def
      upt_rec [of 0] upt_rec [of 1] upt_rec [of 2] upt_rec [of 3] upt_rec [of 4] upt_rec [of 5])

text \<open>
  Claim C3. When every price lookup yields null (so that the fetched price map is empty)
  and the investment cache is empty or out of date, \<open>getRealTimeInvestments\<close> returns the
  fallback investments (and caches them). Their positions are the fallback table: the
  five tickers AAPL, GOOGL, MSFT, TSLA, NVDA with the prices 175.23, 2847.56, 331.78,
  248.50, 875.30, the configured quantities and purchase values, and as current value
  the fallback price times the quantity.
\<close>

theorem getRealTimeInvestments_fallback:
  "\<forall>i. resolved i = None \<Longrightarrow>
   investmentCache st = None \<or> \<not> now - lastInvestmentUpdate st < 300000 \<Longrightarrow>
   getRealTimeInvestments st now resolved now'
     = Inr (getFallbackInvestments,
            st\<lparr>investmentCache := Some getFallbackInvestments, lastInvestmentUpdate := now'\<rparr>)
   \<and> fst (getMultipleStockPrices resolved (map cfg_ticker USER_PORTFOLIO_CONFIG)) = (\<lambda>sy. None)
   \<and> map position getFallbackInvestments = fallbackTable
   \<and> (\<forall>x\<in>set getFallbackInvestments. currentValue x = nmul (price x) (quantity x))"
proof -
  assume none: "\<forall>i. resolved i = None"
    and old: "investmentCache st = None \<or> \<not> now - lastInvestmentUpdate st < 300000"
  have prices: "fst (getMultipleStockPrices resolved (map cfg_ticker USER_PORTFOLIO_CONFIG))
      = (\<lambda>sy. None)"
    using none by (rule getMultipleStockPrices_all_None)
  have "getRealTimeInvestments_body st now resolved now'
     = Inr (getFallbackInvestments,
            st\<lparr>investmentCache := Some getFallbackInvestments, lastInvestmentUpdate := now'\<rparr>)"
    using old
    by (auto simp add: getRealTimeInvestments_body_def prices Let_def getFallbackInvestments_def
        INVESTMENT_CACHE_DURATION_def split: option.splits)
  then show ?thesis
    by (simp add: getRealTimeInvestments_def fallback_positions fallback_currentValue prices)
qed

theorem getRealTimeInvestments_fallback_witness:
  "(\<forall>i::nat. (\<lambda>i. None :: StockPrice option) i = None)
   \<and> investmentCache newProvider = None
   \<and> \<not> 400000 - lastInvestmentUpdate staleProvider < (300000::int)
   \<and> getRealTimeInvestments newProvider 5000 (\<lambda>i. None) 5600
       = Inr (getFallbackInvestments,
              \<lparr>investmentCache = Some getFallbackInvestments, lastInvestmentUpdate = 5600\<rparr>)
   \<and> getRealTimeInvestments staleProvider 400000 (\<lambda>i. None) 400600
       = Inr (getFallbackInvestments,
              \<lparr>investmentCache = Some getFallbackInvestments, lastInvestmentUpdate = 400600\<rparr>)
   \<and> map position getFallbackInvestments = fallbackTable"
  using getRealTimeInvestments_fallback [of "\<lambda>i. None" newProvider 5000 5600]
    getRealTimeInvestments_fallback [of "\<lambda>i. None" staleProvider 400000 400600]
  by (simp add: newProvider_def staleProvider_def)

subsection \<open>What the operations of the provider return\<close>

lemma lookup_distinct:
  assumes d: "distinct symbols" and i: "i < length symbols"
  shows "fst (getMultipleStockPrices resolved symbols) (symbols ! i) = resolved i"
proof -
  let ?m = "fst (getMultipleStockPrices resolved symbols)"
  have def: "?m sy \<noteq> None \<longleftrightarrow> (\<exists>j<length symbols. symbols ! j = sy \<and> resolved j \<noteq> None)" for sy
    unfolding getMultipleStockPrices_def loop_defined by auto
  have look: "\<exists>j<length symbols. symbols ! j = sy \<and> resolved j = Some r" if "?m sy = Some r" for sy r
    using loop_lookup [of resolved symbols 0 "\<lambda>sy. None" "[]" sy r] that
    by (simp add: getMultipleStockPrices_def)
  have same: "j = i" if "j < length symbols" "symbols ! j = symbols ! i" for j
    using that d i by (simp add: nth_eq_iff_index_eq)
  show ?thesis
  proof (cases "resolved i")
    case None
    have "\<not> (\<exists>j<length symbols. symbols ! j = symbols ! i \<and> resolved j \<noteq> None)"
      using same None by auto
    then have "?m (symbols ! i) = None"
      using def [of "symbols ! i"] by blast
    then show ?thesis
      using None by simp
  next
    case (Some r)
    then have "?m (symbols ! i) \<noteq> None"
      using def [of "symbols ! i"] i by blast
    then obtain r' where r': "?m (symbols ! i) = Some r'"
      by blast
    then obtain j where "j < length symbols" "symbols ! j = symbols ! i" "resolved j = Some r'"
      using look by blast
    then have "resolved i = Some r'"
      using same by blast
    then show ?thesis
      using r' by simp
  qed
qed

lemma config_tickers:
  "map cfg_ticker USER_PORTFOLIO_CONFIG = fiveSymbols"
  by (simp add: USER_PORTFOLIO_CONFIG_def fiveSymbols_def)

lemma fiveSymbols_distinct: "distinct fiveSymbols"
  by (simp add: fiveSymbols_def str_def)

lemma fiveSymbols_length: "length fiveSymbols = 5"
  by (simp add: fiveSymbols_def)

lemma mapIndexed_length: "length (mapIndexed f xs) = length xs"
  by (simp add: mapIndexed_def)

lemma mapIndexed_nth: "i < length xs \<Longrightarrow> mapIndexed f xs ! i = f (xs ! i) i"
  by (simp add: mapIndexed_def)

lemma config_length: "length USER_PORTFOLIO_CONFIG = 5"
  by (simp add: USER_PORTFOLIO_CONFIG_def)

lemma built_positions:
  assumes "i < 5"
  shows "mapIndexed (\<lambda>config index.
            case fst (getMultipleStockPrices resolved (map cfg_ticker USER_PORTFOLIO_CONFIG))
                   (cfg_ticker config) of
              Some stockData \<Rightarrow> liveInvestment stockData config index
            | None \<Rightarrow> getFallbackInvestment config index) USER_PORTFOLIO_CONFIG ! i
         = (case resolved i of
              Some stockData \<Rightarrow> liveInvestment stockData (USER_PORTFOLIO_CONFIG ! i) i
            | None \<Rightarrow> getFallbackInvestment (USER_PORTFOLIO_CONFIG ! i) i)"
proof -
  have "map cfg_ticker USER_PORTFOLIO_CONFIG ! i = cfg_ticker (USER_PORTFOLIO_CONFIG ! i)"
    using assms by (intro nth_map) (simp add: config_length)
  then have t: "cfg_ticker (USER_PORTFOLIO_CONFIG ! i) = fiveSymbols ! i"
    by (simp only: config_tickers)
  have "fst (getMultipleStockPrices resolved fiveSymbols) (fiveSymbols ! i) = resolved i"
    using assms by (intro lookup_distinct) (simp_all add: fiveSymbols_distinct fiveSymbols_length)
  then show ?thesis
    using assms by (simp add: mapIndexed_nth config_length config_tickers t)
qed

lemma investments_returned:
  "\<exists>investments st'. getRealTimeInvestments st now resolved now' = Inr (investments, st')
     \<and> (if investmentCache st \<noteq> None \<and> now - lastInvestmentUpdate st < 300000
         then investmentCache st = Some investments \<and> st' = st
         else length investments = 5
           \<and> (\<forall>i<5. investments ! i =
                 (case resolved i of
                    Some stockData \<Rightarrow> liveInvestment stockData (USER_PORTFOLIO_CONFIG ! i) i
                  | None \<Rightarrow> getFallbackInvestment (USER_PORTFOLIO_CONFIG ! i) i))
           \<and> st' = st\<lparr>investmentCache := Some investments, lastInvestmentUpdate := now'\<rparr>)"
proof -
  define built where "built = mapIndexed (\<lambda>config index.
            case fst (getMultipleStockPrices resolved (map cfg_ticker USER_PORTFOLIO_CONFIG))
                   (cfg_ticker config) of
              Some stockData \<Rightarrow> liveInvestment stockData config index
            | None \<Rightarrow> getFallbackInvestment config index) USER_PORTFOLIO_CONFIG"
  have len: "length built = 5"
    by (simp add: built_def mapIndexed_length config_length)
  have pos: "\<forall>i<5. built ! i =
                 (case resolved i of
                    Some stockData \<Rightarrow> liveInvestment stockData (USER_PORTFOLIO_CONFIG ! i) i
                  | None \<Rightarrow> getFallbackInvestment (USER_PORTFOLIO_CONFIG ! i) i)"
    unfolding built_def using built_positions by blast
  show ?thesis
  proof (cases "investmentCache st \<noteq> None \<and> now - lastInvestmentUpdate st < 300000")
    case True
    then obtain cached where c: "investmentCache st = Some cached"
      by auto
    have "getRealTimeInvestments st now resolved now' = Inr (cached, st)"
      using True c
      by (simp add: getRealTimeInvestments_def getRealTimeInvestments_body_def Let_def
          INVESTMENT_CACHE_DURATION_def)
    then show ?thesis
      using True c by simp
  next
    case False
    have "getRealTimeInvestments st now resolved now'
        = Inr (built, st\<lparr>investmentCache := Some built, lastInvestmentUpdate := now'\<rparr>)"
      using False unfolding built_def
      by (auto simp add: getRealTimeInvestments_def getRealTimeInvestments_body_def Let_def
          INVESTMENT_CACHE_DURATION_def split: option.splits)
    moreover have "\<not> (investmentCache st \<noteq> None \<and> now - lastInvestmentUpdate st < 300000)"
      using False .
    ultimately show ?thesis
      using len pos by (intro exI [of _ built] exI [of _ "st\<lparr>investmentCache := Some built, lastInvestmentUpdate := now'\<rparr>"]) (simp only: if_False simp_thms)
  qed
qed

lemma clamp_band:
  "Math_max (Fin 50) (Math_min (Fin 150) v) = NaN
   \<or> (\<exists>x. Math_max (Fin 50) (Math_min (Fin 150) v) = Fin x \<and> 50 \<le> x \<and> x \<le> 150)"
  by (cases v) (auto simp: Math_max_def Math_min_def)

lemma upt6: "[0 ..< 6] = [0, 1, 2, 3, 4, 5::nat]"
  by (simp add: upt_rec)

lemma upt7: "[0 ..< 7] = [0, 1, 2, 3, 4, 5, 6::nat]"
  by (simp add: upt_rec)

lemma months_nth: "map (\<lambda>i. months ! i) [0 ..< 6] = months"
  by (simp add: months_def upt6)

lemma portfolio_returned:
  "\<exists>investments st' s.
      getRealTimeInvestments st now resolved now' = Inr (investments, st')
      \<and> getRealTimePortfolioData st now resolved now' random = Inr (s, st')
      \<and> series_labels s = months
      \<and> length (series_data s) = 6
      \<and> (\<forall>i<6. series_data s ! i =
            Math_max (Fin 50) (Math_min (Fin 150)
              (nadd (nadd (Fin 100)
                 (ndiv (nmul (nmul (ndiv (nsub (sumOf currentValue investments)
                                               (sumOf purchaseValue investments))
                                         (sumOf purchaseValue investments))
                                   (Fin 100))
                             (Fin (real (i + 1))))
                       (Fin 6)))
                 (nmul (nsub (random i) (Fin 0.5)) (Fin 10)))))
      \<and> (\<forall>i<6. series_data s ! i = NaN
            \<or> (\<exists>x. series_data s ! i = Fin x \<and> 50 \<le> x \<and> x \<le> 150))"
proof -
  obtain investments st' where inv: "getRealTimeInvestments st now resolved now' = Inr (investments, st')"
    using investments_returned [of st now resolved now'] by blast
  define point where "point = (\<lambda>i.
            Math_max (Fin 50) (Math_min (Fin 150)
              (nadd (nadd (Fin 100)
                 (ndiv (nmul (nmul (ndiv (nsub (sumOf currentValue investments)
                                               (sumOf purchaseValue investments))
                                         (sumOf purchaseValue investments))
                                   (Fin 100))
                             (Fin (real (i + 1))))
                       (Fin 6)))
                 (nmul (nsub (random i) (Fin 0.5)) (Fin 10)))))"
  define s where "s = \<lparr>series_data = map point [0 ..< 6], series_labels = months\<rparr>"
  have body: "getRealTimePortfolioData_body st now resolved now' random = Inr (s, st')"
    by (simp add: getRealTimePortfolioData_body_def inv Let_def s_def point_def
        months_nth)
  then have res: "getRealTimePortfolioData st now resolved now' random = Inr (s, st')"
    by (simp add: getRealTimePortfolioData_def)
  have nth: "series_data s ! i = point i" if "i < 6" for i
    using that by (simp add: s_def)
  have band: "point i = NaN \<or> (\<exists>x. point i = Fin x \<and> 50 \<le> x \<and> x \<le> 150)" for i
    unfolding point_def by (rule clamp_band)
  have "series_labels s = months" "length (series_data s) = 6"
    by (simp_all add: s_def)
  moreover have "\<forall>i<6. series_data s ! i = point i"
    using nth by blast
  moreover have "\<forall>i<6. series_data s ! i = NaN
            \<or> (\<exists>x. series_data s ! i = Fin x \<and> 50 \<le> x \<and> x \<le> 150)"
    using nth band by simp
  ultimately show ?thesis
    using inv res unfolding point_def by blast
qed

lemma fallbackInsights_nonempty: "\<forall>x\<in>set getFallbackInsights. x \<noteq> []"
  by (simp add: getFallbackInsights_def str_def)

lemma insights_returned:
  "\<exists>r. getMarketInsights (Inr response) = Inr r
     \<and> r = (let parsed =
                take 3 (filter (\<lambda>insight. insight \<noteq> [])
                  (map (\<lambda>line. trim (stripBullet line))
                    (filter (\<lambda>line. startsWith (trim line) [bullet]
                               \<or> startsWith (trim line) (str ''-''))
                       (splitLines response []))))
             in if parsed = [] then getFallbackInsights else parsed)
     \<and> 0 < length r \<and> length r \<le> 3
     \<and> (\<forall>x\<in>set r. x \<noteq> [])
     \<and> (r = getFallbackInsights
         \<or> (\<forall>x\<in>set r. \<exists>line\<in>set (splitLines response []).
               (startsWith (trim line) [bullet] \<or> startsWith (trim line) (str ''-''))
               \<and> x = trim (stripBullet line)))"
proof -
  define parsed where "parsed =
                take 3 (filter (\<lambda>insight. insight \<noteq> [])
                  (map (\<lambda>line. trim (stripBullet line))
                    (filter (\<lambda>line. startsWith (trim line) [bullet]
                               \<or> startsWith (trim line) (str ''-''))
                       (splitLines response []))))"
  define r where "r = (if parsed = [] then getFallbackInsights else parsed)"
  have res: "getMarketInsights (Inr response) = Inr r"
    by (simp add: getMarketInsights_def getMarketInsights_body_def Let_def r_def parsed_def)
  have len: "length parsed \<le> 3"
    by (simp add: parsed_def)
  have sub: "set parsed \<subseteq> set (filter (\<lambda>insight. insight \<noteq> [])
                  (map (\<lambda>line. trim (stripBullet line))
                    (filter (\<lambda>line. startsWith (trim line) [bullet]
                               \<or> startsWith (trim line) (str ''-''))
                       (splitLines response []))))"
    unfolding parsed_def by (rule set_take_subset)
  have ne: "\<forall>x\<in>set parsed. x \<noteq> []"
    using sub by auto
  have src: "\<forall>x\<in>set parsed. \<exists>line\<in>set (splitLines response []).
               (startsWith (trim line) [bullet] \<or> startsWith (trim line) (str ''-''))
               \<and> x = trim (stripBullet line)"
    using sub by auto
  have 1: "0 < length r \<and> length r \<le> 3"
    using len by (auto simp: r_def getFallbackInsights_def)
  have 2: "\<forall>x\<in>set r. x \<noteq> []"
    using ne fallbackInsights_nonempty by (simp add: r_def)
  have 3: "r = getFallbackInsights
         \<or> (\<forall>x\<in>set r. \<exists>line\<in>set (splitLines response []).
               (startsWith (trim line) [bullet] \<or> startsWith (trim line) (str ''-''))
               \<and> x = trim (stripBullet line))"
    using src by (simp add: r_def)
  have 0: "r = (let parsed =
                take 3 (filter (\<lambda>insight. insight \<noteq> [])
                  (map (\<lambda>line. trim (stripBullet line))
                    (filter (\<lambda>line. startsWith (trim line) [bullet]
                               \<or> startsWith (trim line) (str ''-''))
                       (splitLines response []))))
             in if parsed = [] then getFallbackInsights else parsed)"
    by (simp add: r_def parsed_def Let_def)
  show ?thesis
    using res 0 1 2 3 by blast
qed

lemma day_labels:
  "map (\<lambda>i. str ''Day '' @ toString (Suc i)) [0 ..< 7] = series_labels fallbackExchangeRates"
  by (simp add: fallbackExchangeRates_def str_def toString.simps upt7)

lemma toFixed2_finite: "\<exists>y. parseFloat_toFixed2 (Fin x) = Fin y"
proof (cases "10 ^ 21 \<le> \<bar>x\<bar>")
  case True
  then have "parseFloat_toFixed2 (Fin x) = Fin x"
    by simp
  then show ?thesis ..
next
  case False
  show ?thesis
  proof (cases "x < 0")
    case True
    then have "parseFloat_toFixed2 (Fin x) = Fin (- (real_of_int \<lfloor>\<bar>x\<bar> * 100 + 1 / 2\<rfloor> / 100))"
      using False by simp
    then show ?thesis ..
  next
    case nonneg: False
    then have "parseFloat_toFixed2 (Fin x) = Fin (real_of_int \<lfloor>\<bar>x\<bar> * 100 + 1 / 2\<rfloor> / 100)"
      using False by simp
    then show ?thesis ..
  qed
qed

lemma toFixed2_near:
  assumes "parseFloat_toFixed2 (Fin x) = Fin y"
  shows "\<bar>y - x\<bar> \<le> 1 / 200"
proof (cases "10 ^ 21 \<le> \<bar>x\<bar>")
  case True
  then show ?thesis
    using assms by simp
next
  case False
  define n where "n = \<lfloor>\<bar>x\<bar> * 100 + 1 / 2\<rfloor>"
  have lo: "real_of_int n \<le> \<bar>x\<bar> * 100 + 1 / 2" and hi: "\<bar>x\<bar> * 100 + 1 / 2 < real_of_int n + 1"
    unfolding n_def by linarith+
  show ?thesis
  proof (cases "x < 0")
    case True
    then have "y = - (real_of_int n / 100)"
      using assms False by (simp add: n_def)
    then show ?thesis
      using lo hi True by (simp add: abs_if field_simps)
  next
    case neg: False
    then have "y = real_of_int n / 100"
      using assms False by (simp add: n_def)
    then show ?thesis
      using lo hi neg by (simp add: abs_if field_simps)
  qed
qed

lemma exchange_returned:
  "\<exists>s. getRealTimeExchangeRates (Inr response) random = Inr s
     \<and> series_labels s = series_labels fallbackExchangeRates
     \<and> length (series_data s) = 7
     \<and> (\<forall>i<7. series_data s ! i =
            parseFloat_toFixed2
              (nadd (case match_js False rateRe response of
                       Some m \<Rightarrow> parseFloat (m ! 1)
                     | None \<Rightarrow> Fin 83.5)
                    (nmul (nsub (random i) (Fin 0.5)) (Fin 2))))
     \<and> (\<forall>i<7. \<forall>rate u.
            (case match_js False rateRe response of
               Some m \<Rightarrow> parseFloat (m ! 1)
             | None \<Rightarrow> Fin 83.5) = Fin rate \<and> random i = Fin u \<and> 0 \<le> u \<and> u < 1
            \<longrightarrow> (\<exists>y. series_data s ! i = Fin y \<and> \<bar>y - rate\<bar> \<le> 1.005))"
proof -
  define currentRate where "currentRate =
    (case match_js False rateRe response of Some m \<Rightarrow> parseFloat (m ! 1) | None \<Rightarrow> Fin 83.5)"
  define point where "point = (\<lambda>i.
    parseFloat_toFixed2 (nadd currentRate (nmul (nsub (random i) (Fin 0.5)) (Fin 2))))"
  define s where "s = \<lparr>series_data = map point [0 ..< 7],
    series_labels = series_labels fallbackExchangeRates\<rparr>"
  have res: "getRealTimeExchangeRates (Inr response) random = Inr s"
    by (simp add: getRealTimeExchangeRates_def getRealTimeExchangeRates_body_def Let_def
        s_def point_def currentRate_def day_labels)
  have nth: "series_data s ! i = point i" if "i < 7" for i
    using that by (simp add: s_def)
  have near: "\<exists>y. point i = Fin y \<and> \<bar>y - rate\<bar> \<le> 1.005"
    if "currentRate = Fin rate" "random i = Fin u" "0 \<le> u" "u < 1" for i rate u
  proof -
    define x where "x = rate + (u - 0.5) * 2"
    have p: "point i = parseFloat_toFixed2 (Fin x)"
      using that by (simp add: point_def x_def nsub_def)
    obtain y where y: "parseFloat_toFixed2 (Fin x) = Fin y"
      using toFixed2_finite by blast
    have "\<bar>y - x\<bar> \<le> 1 / 200"
      using y by (rule toFixed2_near)
    moreover have "\<bar>x - rate\<bar> \<le> 1"
      using that(3,4) by (simp add: x_def abs_if)
    ultimately have "\<bar>y - rate\<bar> \<le> 201 / 200"
      by linarith
    then have "\<bar>y - rate\<bar> \<le> 1.005"
      by simp
    then show ?thesis
      using p y by simp
  qed
  have 1: "series_labels s = series_labels fallbackExchangeRates" "length (series_data s) = 7"
    by (simp_all add: s_def)
  have 2: "\<forall>i<7. series_data s ! i = point i"
    using nth by blast
  have 3: "\<forall>i<7. \<forall>rate u. currentRate = Fin rate \<and> random i = Fin u \<and> 0 \<le> u \<and> u < 1
            \<longrightarrow> (\<exists>y. series_data s ! i = Fin y \<and> \<bar>y - rate\<bar> \<le> 1.005)"
    using nth near by simp
  show ?thesis
    using res 1 2 3 unfolding point_def currentRate_def by blast
qed

lemma list5: "length xs = 5 \<Longrightarrow> xs = [xs ! 0, xs ! 1, xs ! 2, xs ! 3, xs ! 4]"
  by (auto simp: numeral_eq_Suc length_Suc_conv)

text \<open>
  Claim C7. A price lookup that fails (the \<open>fetch\<close> promise rejects, the status is not
  in 200..299, the body is not JSON, or the response cannot be parsed) resolves to null and
  throws nothing. Whatever the price lookups resolve to, whatever \<open>sendQuery\<close> answers
  or throws and whatever \<open>Math.random\<close> returns, each operation of the provider returns
  a value, throws nothing, and the value is the following.
  \<^item> \<open>getRealTimeInvestments\<close> returns the cached list, and leaves the cache as it is,
    when there is a cache younger than five minutes. Otherwise it returns five positions, the
    \<open>i\<close>-th being \<open>liveInvestment\<close> of the \<open>i\<close>-th configured position when the
    \<open>i\<close>-th price lookup resolves to a price, and \<open>getFallbackInvestment\<close> of it when
    the lookup resolves to null; the list is cached with the time \<open>now'\<close>.
  \<^item> \<open>getRealTimePortfolioData\<close> returns six points labelled Jul to Dec, computed from
    the investments that \<open>getRealTimeInvestments\<close> returns: the \<open>i\<close>-th point is
    100 plus \<open>(i + 1) / 6\<close> of the performance in percent plus a variation of
    \<open>(random i - 0.5) * 10\<close>, clamped to 50..150 (or NaN when the sum is NaN).
  \<^item> \<open>getMarketInsights\<close>, when \<open>sendQuery\<close> answers, returns the first three
    non-empty bullet lines of the answer, stripped of the bullet and trimmed, and
    \<open>getFallbackInsights\<close> when there is none; the result has one to three non-empty
    entries. When \<open>sendQuery\<close> throws it returns \<open>getFallbackInsights\<close>.
  \<^item> \<open>getRealTimeExchangeRates\<close>, when \<open>sendQuery\<close> answers, returns seven points
    labelled Day 1 to Day 7, the \<open>i\<close>-th being the rate plus \<open>(random i - 0.5) * 2\<close>
    rounded to two decimals, where the rate is the number parsed from the answer, or 83.5
    when the answer names none; for \<open>random i\<close> in [0, 1) the point is within 1.005 of
    the rate. When \<open>sendQuery\<close> throws it returns the static series.
\<close>

theorem provider_never_throws:
  "fst (fetchStockData Rejected sy t c) = None
   \<and> (\<not> (200 \<le> status \<and> status \<le> 299)
        \<longrightarrow> fst (fetchStockData (Response status body) sy t c) = None)
   \<and> fst (fetchStockData (Response status None) sy t c) = None
   \<and> (parseStockResponse data sy t = None
        \<longrightarrow> fst (fetchStockData (Response status (Some data)) sy t c) = None)
   \<and> (\<exists>investments st'. getRealTimeInvestments st now resolved now' = Inr (investments, st')
     \<and> (if investmentCache st \<noteq> None \<and> now - lastInvestmentUpdate st < 300000
         then investmentCache st = Some investments \<and> st' = st
         else length investments = 5
           \<and> (\<forall>i<5. investments ! i =
                 (case resolved i of
                    Some stockData \<Rightarrow> liveInvestment stockData (USER_PORTFOLIO_CONFIG ! i) i
                  | None \<Rightarrow> getFallbackInvestment (USER_PORTFOLIO_CONFIG ! i) i))
           \<and> st' = st\<lparr>investmentCache := Some investments, lastInvestmentUpdate := now'\<rparr>))
   \<and> (\<exists>investments st' s.
      getRealTimeInvestments st now resolved now' = Inr (investments, st')
      \<and> getRealTimePortfolioData st now resolved now' random = Inr (s, st')
      \<and> series_labels s = months
      \<and> length (series_data s) = 6
      \<and> (\<forall>i<6. series_data s ! i =
            Math_max (Fin 50) (Math_min (Fin 150)
              (nadd (nadd (Fin 100)
                 (ndiv (nmul (nmul (ndiv (nsub (sumOf currentValue investments)
                                               (sumOf purchaseValue investments))
                                         (sumOf purchaseValue investments))
                                   (Fin 100))
                             (Fin (real (i + 1))))
                       (Fin 6)))
                 (nmul (nsub (random i) (Fin 0.5)) (Fin 10)))))
      \<and> (\<forall>i<6. series_data s ! i = NaN
            \<or> (\<exists>x. series_data s ! i = Fin x \<and> 50 \<le> x \<and> x \<le> 150)))
   \<and> (\<exists>r. getMarketInsights (Inr response) = Inr r
     \<and> r = (let parsed =
                take 3 (filter (\<lambda>insight. insight \<noteq> [])
                  (map (\<lambda>line. trim (stripBullet line))
                    (filter (\<lambda>line. startsWith (trim line) [bullet]
                               \<or> startsWith (trim line) (str ''-''))
                       (splitLines response []))))
             in if parsed = [] then getFallbackInsights else parsed)
     \<and> 0 < length r \<and> length r \<le> 3
     \<and> (\<forall>x\<in>set r. x \<noteq> [])
     \<and> (r = getFallbackInsights
         \<or> (\<forall>x\<in>set r. \<exists>line\<in>set (splitLines response []).
               (startsWith (trim line) [bullet] \<or> startsWith (trim line) (str ''-''))
               \<and> x = trim (stripBullet line))))
   \<and> (\<exists>s. getRealTimeExchangeRates (Inr response') random' = Inr s
     \<and> series_labels s = series_labels fallbackExchangeRates
     \<and> length (series_data s) = 7
     \<and> (\<forall>i<7. series_data s ! i =
            parseFloat_toFixed2
              (nadd (case match_js False rateRe response' of
                       Some m \<Rightarrow> parseFloat (m ! 1)
                     | None \<Rightarrow> Fin 83.5)
                    (nmul (nsub (random' i) (Fin 0.5)) (Fin 2))))
     \<and> (\<forall>i<7. \<forall>rate u.
            (case match_js False rateRe response' of
               Some m \<Rightarrow> parseFloat (m ! 1)
             | None \<Rightarrow> Fin 83.5) = Fin rate \<and> random' i = Fin u \<and> 0 \<le> u \<and> u < 1
            \<longrightarrow> (\<exists>y. series_data s ! i = Fin y \<and> \<bar>y - rate\<bar> \<le> 1.005)))
   \<and> (\<exists>r. getRealTimeInvestments st now resolved now' = Inr r)
   \<and> (\<exists>r. getRealTimePortfolioData st now resolved now' random = Inr r)
   \<and> (\<exists>r. getMarketInsights sendQuery = Inr r)
   \<and> (\<exists>r. getRealTimeExchangeRates sendQuery' random' = Inr r)
   \<and> getMarketInsights (Inl e) = Inr getFallbackInsights
   \<and> getRealTimeExchangeRates (Inl e') random' = Inr fallbackExchangeRates"
proof -
  have f: "fst (fetchStockData Rejected sy t c) = None"
    "\<not> (200 \<le> status \<and> status \<le> 299)
        \<longrightarrow> fst (fetchStockData (Response status body) sy t c) = None"
    "fst (fetchStockData (Response status None) sy t c) = None"
    "parseStockResponse data sy t = None
        \<longrightarrow> fst (fetchStockData (Response status (Some data)) sy t c) = None"
    by (simp_all add: fetchStockData_def fetchStockData_body_def)
  have 1: "\<exists>r. getRealTimeInvestments st now resolved now' = Inr r"
    by (simp add: getRealTimeInvestments_def split: sum.splits)
  have 2: "\<exists>r. getRealTimePortfolioData st now resolved now' random = Inr r"
    by (simp add: getRealTimePortfolioData_def split: sum.splits)
  have 3: "\<exists>r. getMarketInsights sendQuery = Inr r"
    by (simp add: getMarketInsights_def split: sum.splits)
  have 4: "\<exists>r. getRealTimeExchangeRates sendQuery' random' = Inr r"
    by (simp add: getRealTimeExchangeRates_def split: sum.splits)
  have 5: "getMarketInsights (Inl e) = Inr getFallbackInsights"
    by (simp add: getMarketInsights_def getMarketInsights_body_def)
  have 6: "getRealTimeExchangeRates (Inl e') random' = Inr fallbackExchangeRates"
    by (simp add: getRealTimeExchangeRates_def getRealTimeExchangeRates_body_def)
  show ?thesis
    by (intro conjI f 1 2 3 4 5 6 investments_returned portfolio_returned insights_returned
        exchange_returned)
qed

theorem provider_never_throws_witness:
  "\<not> (200 \<le> (503::nat) \<and> (503::nat) \<le> 299)
   \<and> fst (fetchStockData (Response 503 None) (str ''AAPL'') 0 (\<lambda>sy. None)) = None
   \<and> parseStockResponse JNull (str ''AAPL'') 0 = None
   \<and> fst (fetchStockData (Response 200 (Some JNull)) (str ''AAPL'') 0 (\<lambda>sy. None)) = None
   \<and> getRealTimeInvestments newProvider 5000 onlySecond 5600
       = Inr (mixedInvestments,
              \<lparr>investmentCache = Some mixedInvestments, lastInvestmentUpdate = 5600\<rparr>)
   \<and> map position mixedInvestments
       = [(str ''AAPL'', Fin 175.23, Fin 100, Fin 15000, Fin 17523),
          (str ''GOOGL'', Fin 42, Fin 10, Fin 30000, Fin 420),
          (str ''MSFT'', Fin 331.78, Fin 50, Fin 15000, Fin 16589),
          (str ''TSLA'', Fin 248.50, Fin 25, Fin 12000, Fin 6212.5),
          (str ''NVDA'', Fin 875.30, Fin 30, Fin 18000, Fin 26259)]
   \<and> getRealTimeInvestments staleProvider 5000 (\<lambda>i. None) 5600 = Inr ([], staleProvider)
   \<and> getRealTimePortfolioData staleProvider 400000 (\<lambda>i. None) 400600 (\<lambda>i. Fin 0.5)
       = Inr (\<lparr>series_data =
                 [Fin (5450591 / 54000), Fin (2750591 / 27000), Fin (1850591 / 18000),
                  Fin (1400591 / 13500), Fin (1130591 / 10800), Fin (950591 / 9000)],
               series_labels = months\<rparr>,
              \<lparr>investmentCache = Some getFallbackInvestments, lastInvestmentUpdate = 400600\<rparr>)
   \<and> getMarketInsights (Inr insightsAnswer)
       = Inr [str ''Markets are up'', str ''Tech is mixed'']
   \<and> getMarketInsights (Inr (str ''No news today'')) = Inr getFallbackInsights
   \<and> getRealTimeExchangeRates (Inr rateAnswer) (\<lambda>i. Fin 0.5)
       = Inr \<lparr>series_data = [Fin 83.27, Fin 83.27, Fin 83.27, Fin 83.27, Fin 83.27, Fin 83.27,
                              Fin 83.27],
              series_labels = series_labels fallbackExchangeRates\<rparr>
   \<and> getRealTimeExchangeRates (Inr (str ''No news today'')) (\<lambda>i. Fin 0.75)
       = Inr \<lparr>series_data = [Fin 84, Fin 84, Fin 84, Fin 84, Fin 84, Fin 84, Fin 84],
              series_labels = series_labels fallbackExchangeRates\<rparr>
   \<and> getMarketInsights (Inl NetworkError) = Inr getFallbackInsights
   \<and> getRealTimeExchangeRates (Inl NetworkError) (\<lambda>i. Fin 0.5) = Inr fallbackExchangeRates"
proof -
  note t1 = provider_never_throws [where sy = "str ''AAPL''" and t = 0 and c = "\<lambda>sy. None"
      and status = 503 and body = None and data = JNull and st = newProvider and now = 5000
      and resolved = onlySecond and now' = 5600 and random = "\<lambda>i. Fin 0.5"
      and response = insightsAnswer and response' = rateAnswer and random' = "\<lambda>i. Fin 0.5"
      and sendQuery = "Inl NetworkError" and sendQuery' = "Inl NetworkError"
      and e = NetworkError and e' = NetworkError]
  note t2 = provider_never_throws [where sy = "str ''AAPL''" and t = 0 and c = "\<lambda>sy. None"
      and status = 200 and body = None and data = JNull and st = staleProvider and now = 400000
      and resolved = "\<lambda>i. None" and now' = 400600 and random = "\<lambda>i. Fin 0.5"
      and response = "str ''No news today''" and response' = "str ''No news today''"
      and random' = "\<lambda>i. Fin 0.75"
      and sendQuery = "Inl NetworkError" and sendQuery' = "Inl NetworkError"
      and e = NetworkError and e' = NetworkError]
  have p: "parseStockResponse JNull (str ''AAPL'') 0 = None"
    by (simp add: parseStockResponse_def parseStockResponse_body_def)
  have a: "fst (fetchStockData (Response 503 None) (str ''AAPL'') 0 (\<lambda>sy. None)) = None"
    using t1 by simp
  have b: "fst (fetchStockData (Response 200 (Some JNull)) (str ''AAPL'') 0 (\<lambda>sy. None)) = None"
    using t2 p by simp
  have i: "getRealTimeInvestments newProvider 5000 onlySecond 5600
       = Inr (mixedInvestments,
              \<lparr>investmentCache = Some mixedInvestments, lastInvestmentUpdate = 5600\<rparr>)"
  proof -
    obtain investments st' where
      r: "getRealTimeInvestments newProvider 5000 onlySecond 5600 = Inr (investments, st')"
      and len: "length investments = 5"
      and pos: "\<forall>i<5. investments ! i =
                 (case onlySecond i of
                    Some stockData \<Rightarrow> liveInvestment stockData (USER_PORTFOLIO_CONFIG ! i) i
                  | None \<Rightarrow> getFallbackInvestment (USER_PORTFOLIO_CONFIG ! i) i)"
      and st': "st' = newProvider\<lparr>investmentCache := Some investments,
                  lastInvestmentUpdate := 5600\<rparr>"
      using t1 [THEN conjunct2, THEN conjunct2, THEN conjunct2, THEN conjunct2, THEN conjunct1]
      by (auto simp: newProvider_def)
    have "investments ! 0 = mixedInvestments ! 0" "investments ! 1 = mixedInvestments ! 1"
      "investments ! 2 = mixedInvestments ! 2" "investments ! 3 = mixedInvestments ! 3"
      "investments ! 4 = mixedInvestments ! 4"
      using pos by (simp_all add: onlySecond_def mixedInvestments_def)
    then have "[investments ! 0, investments ! 1, investments ! 2, investments ! 3,
        investments ! 4] = mixedInvestments"
      by (simp add: mixedInvestments_def)
    then have "investments = mixedInvestments"
      using list5 [OF len] by simp
    then show ?thesis
      using r st' by (simp add: newProvider_def)
  qed
  have m: "map position mixedInvestments
       = [(str ''AAPL'', Fin 175.23, Fin 100, Fin 15000, Fin 17523),
          (str ''GOOGL'', Fin 42, Fin 10, Fin 30000, Fin 420),
          (str ''MSFT'', Fin 331.78, Fin 50, Fin 15000, Fin 16589),
          (str ''TSLA'', Fin 248.50, Fin 25, Fin 12000, Fin 6212.5),
          (str ''NVDA'', Fin 875.30, Fin 30, Fin 18000, Fin 26259)]"
    by (simp add: mixedInvestments_def position_def getFallbackInvestment_def liveInvestment_def
        USER_PORTFOLIO_CONFIG_def fallbackPrices_def somePrice_def Let_def str_def)
  have s: "getRealTimeInvestments staleProvider 5000 (\<lambda>i. None) 5600 = Inr ([], staleProvider)"
    by (simp add: getRealTimeInvestments_def getRealTimeInvestments_body_def Let_def
        staleProvider_def INVESTMENT_CACHE_DURATION_def)
  have fi: "getRealTimeInvestments staleProvider 400000 (\<lambda>i. None) 400600
       = Inr (getFallbackInvestments,
              \<lparr>investmentCache = Some getFallbackInvestments, lastInvestmentUpdate = 400600\<rparr>)"
    by (simp add: getRealTimeInvestments_def getRealTimeInvestments_body_def Let_def
        getMultipleStockPrices_all_None getFallbackInvestments_def staleProvider_def
        INVESTMENT_CACHE_DURATION_def)
  have tot: "sumOf currentValue getFallbackInvestments = Fin 95059.1"
    "sumOf purchaseValue getFallbackInvestments = Fin 90000"
    by (simp_all add: sumOf_def getFallbackInvestments_def mapIndexed_def
        USER_PORTFOLIO_CONFIG_def getFallbackInvestment_def fallbackPrices_def Let_def str_def
        upt_rec [of 0] upt_rec [of 1] upt_rec [of 2] upt_rec [of 3] upt_rec [of 4]
        upt_rec [of 5])
  have pf: "getRealTimePortfolioData staleProvider 400000 (\<lambda>i. None) 400600 (\<lambda>i. Fin 0.5)
       = Inr (\<lparr>series_data =
                 [Fin (5450591 / 54000), Fin (2750591 / 27000), Fin (1850591 / 18000),
                  Fin (1400591 / 13500), Fin (1130591 / 10800), Fin (950591 / 9000)],
               series_labels = months\<rparr>,
              \<lparr>investmentCache = Some getFallbackInvestments, lastInvestmentUpdate = 400600\<rparr>)"
    by (simp add: getRealTimePortfolioData_def getRealTimePortfolioData_body_def fi tot Let_def
        upt6 months_def Math_max_def Math_min_def nsub_def)
  have ins: "getMarketInsights (Inr insightsAnswer)
       = Inr [str ''Markets are up'', str ''Tech is mixed'']"
    by (simp add: getMarketInsights_def getMarketInsights_body_def insightsAnswer_def trim_def
        bullet_def str_def startsWith_def isSpace_def isLineTerminator_def Let_def)
  have ins0: "getMarketInsights (Inr (str ''No news today'')) = Inr getFallbackInsights"
    by (simp add: getMarketInsights_def getMarketInsights_body_def trim_def
        bullet_def str_def startsWith_def isSpace_def isLineTerminator_def Let_def)
  have ex: "getRealTimeExchangeRates (Inr rateAnswer) (\<lambda>i. Fin 0.5)
       = Inr \<lparr>series_data = [Fin 83.27, Fin 83.27, Fin 83.27, Fin 83.27, Fin 83.27, Fin 83.27,
                              Fin 83.27],
              series_labels = series_labels fallbackExchangeRates\<rparr>"
    by (simp add: getRealTimeExchangeRates_def getRealTimeExchangeRates_body_def rateAnswer_def
        rateRe_def regex_eval number_eval fallbackExchangeRates_def toString.simps upt7 nsub_def)
  have ex0: "getRealTimeExchangeRates (Inr (str ''No news today'')) (\<lambda>i. Fin 0.75)
       = Inr \<lparr>series_data = [Fin 84, Fin 84, Fin 84, Fin 84, Fin 84, Fin 84, Fin 84],
              series_labels = series_labels fallbackExchangeRates\<rparr>"
    by (simp add: getRealTimeExchangeRates_def getRealTimeExchangeRates_body_def
        rateRe_def regex_eval number_eval fallbackExchangeRates_def toString.simps upt7 nsub_def)
  have l: "getMarketInsights (Inl NetworkError) = Inr getFallbackInsights"
    "getRealTimeExchangeRates (Inl NetworkError) (\<lambda>i. Fin 0.5) = Inr fallbackExchangeRates"
    using t1 by simp_all
  show ?thesis
    using a b p i m s pf ins ins0 ex ex0 l by simp
qed

section \<open>Properties of the data context\<close>

lemma commit_interval:
  "interval old = isRealTimeEnabled old \<Longrightarrow> interval new = interval old \<Longrightarrow>
   interval (commit old new) = isRealTimeEnabled (commit old new)"
  by (auto simp: commit_def)

lemma step_interval:
  "interval st = isRealTimeEnabled st \<Longrightarrow> interval (step a st) = isRealTimeEnabled (step a st)"
proof (cases a)
  case Toggle
  assume "interval st = isRealTimeEnabled st"
  then show ?thesis
    using Toggle by (simp add: toggleRealTime_def refreshData_call_def Let_def commit_interval)
next
  case Tick
  assume "interval st = isRealTimeEnabled st"
  then show ?thesis
    using Tick by (simp add: tick_def refreshData_call_def Let_def commit_interval)
next
  case UserRefresh
  assume "interval st = isRealTimeEnabled st"
  then show ?thesis
    using UserRefresh by (simp add: userRefresh_def refreshData_call_def Let_def commit_interval)
next
  case ClearError
  assume "interval st = isRealTimeEnabled st"
  then show ?thesis
    using ClearError by (simp add: clearError_def)
next
  case (Refreshed outcome)
  assume "interval st = isRealTimeEnabled st"
  then show ?thesis
    using Refreshed
    by (cases outcome) (simp_all add: refreshData_resume_def Let_def commit_interval)
next
  case (InitialLoaded outcome)
  assume "interval st = isRealTimeEnabled st"
  then show ?thesis
    using InitialLoaded
    by (cases outcome) (simp_all add: loadInitialData_resume_def Let_def commit_interval)
qed

lemma reachable_interval: "reachable st \<Longrightarrow> interval st = isRealTimeEnabled st"
  by (induction rule: reachable.induct) (simp_all add: mounted_def step_interval)

lemma reachable_run: "reachable st \<Longrightarrow> reachable (run as st)"
  by (induction as arbitrary: st) (simp_all add: r_step)

lemma off_step:
  assumes "\<not> isRealTimeEnabled st" "\<not> interval st" "a \<noteq> Toggle" "a \<noteq> UserRefresh"
  shows "\<not> isRealTimeEnabled (step a st) \<and> \<not> interval (step a st)
         \<and> refreshLog (step a st) = refreshLog st"
proof (cases a)
  case (Refreshed outcome)
  then show ?thesis
    using assms by (cases outcome) (simp_all add: refreshData_resume_def Let_def commit_def)
next
  case (InitialLoaded outcome)
  then show ?thesis
    using assms by (cases outcome) (simp_all add: loadInitialData_resume_def Let_def commit_def)
qed (use assms in \<open>simp_all add: tick_def clearError_def\<close>)

lemma off_run:
  "\<not> isRealTimeEnabled st \<Longrightarrow> \<not> interval st \<Longrightarrow> \<forall>a\<in>set as. a \<noteq> Toggle \<and> a \<noteq> UserRefresh \<Longrightarrow>
   \<not> isRealTimeEnabled (run as st) \<and> \<not> interval (run as st)
   \<and> refreshLog (run as st) = refreshLog st"
proof (induction as arbitrary: st)
  case Nil
  then show ?case by simp
next
  case (Cons a as)
  have s: "\<not> isRealTimeEnabled (step a st) \<and> \<not> interval (step a st)
         \<and> refreshLog (step a st) = refreshLog st"
    using Cons.prems by (intro off_step) simp_all
  show ?case
    using Cons.IH [of "step a st"] s Cons.prems by simp
qed

lemma toggle_off:
  "isRealTimeEnabled st \<Longrightarrow>
   \<not> isRealTimeEnabled (toggleRealTime st) \<and> \<not> interval (toggleRealTime st)
   \<and> refreshLog (toggleRealTime st) = refreshLog st"
  by (simp add: toggleRealTime_def commit_def)

lemma toggle_on:
  "\<not> isRealTimeEnabled st \<Longrightarrow>
   isRealTimeEnabled (toggleRealTime st) \<and> interval (toggleRealTime st)
   \<and> refreshLog (toggleRealTime st) = refreshLog st @ [ByToggle]"
  by (simp add: toggleRealTime_def commit_def refreshData_call_def Let_def)

text \<open>
  Claim C8. From a state with real-time enabled, the toggle disables real-time and clears
  the interval without calling \<open>refreshData\<close>. While real-time stays off, whatever else
  happens apart from presses on the toggle and on the refresh controls (timer, dismissal
  of the error, completions of earlier loads), real-time stays off, the interval stays
  cleared, the timer callback does nothing and \<open>refreshData\<close> is not called. The next
  toggle enables real-time, sets the interval and calls \<open>refreshData\<close> exactly once.
\<close>

theorem toggle_off_on_refreshes_once:
  assumes "isRealTimeEnabled st"
    and "\<forall>a\<in>set as. a \<noteq> Toggle \<and> a \<noteq> UserRefresh"
  shows "\<not> isRealTimeEnabled (run as (toggleRealTime st))
     \<and> \<not> interval (run as (toggleRealTime st))
     \<and> tick (run as (toggleRealTime st)) = run as (toggleRealTime st)
     \<and> refreshLog (run as (toggleRealTime st)) = refreshLog st
     \<and> isRealTimeEnabled (toggleRealTime (run as (toggleRealTime st)))
     \<and> interval (toggleRealTime (run as (toggleRealTime st)))
     \<and> refreshLog (toggleRealTime (run as (toggleRealTime st))) = refreshLog st @ [ByToggle]"
proof -
  let ?off = "run as (toggleRealTime st)"
  have off: "\<not> isRealTimeEnabled ?off \<and> \<not> interval ?off
      \<and> refreshLog ?off = refreshLog (toggleRealTime st)"
    using toggle_off [OF assms(1)] assms(2) by (intro off_run) simp_all
  have on: "isRealTimeEnabled (toggleRealTime ?off) \<and> interval (toggleRealTime ?off)
      \<and> refreshLog (toggleRealTime ?off) = refreshLog ?off @ [ByToggle]"
    using off by (intro toggle_on) simp
  have "tick ?off = ?off"
    using off by (simp add: tick_def)
  then show ?thesis
    using off on toggle_off [OF assms(1)] by simp
qed

theorem toggle_off_on_refreshes_once_witness:
  "isRealTimeEnabled mounted
   \<and> \<not> interval (run [Tick, InitialLoaded Loaded, ClearError] (toggleRealTime mounted))
   \<and> refreshLog (toggleRealTime (run [Tick, InitialLoaded Loaded, ClearError] (toggleRealTime mounted)))
       = [ByToggle]"
proof -
  have e: "isRealTimeEnabled mounted"
    by (simp add: mounted_def)
  have b: "\<forall>a\<in>set [Tick, InitialLoaded Loaded, ClearError]. a \<noteq> Toggle \<and> a \<noteq> UserRefresh"
    by simp
  show ?thesis
    using toggle_off_on_refreshes_once [OF e b] e b by (simp add: mounted_def)
qed

lemma built_purchaseValue:
  "map purchaseValue (mapIndexed (\<lambda>config index.
       case stockPrices (cfg_ticker config) of
         Some stockData \<Rightarrow> liveInvestment stockData config index
       | None \<Rightarrow> getFallbackInvestment config index) USER_PORTFOLIO_CONFIG)
     = [Fin 15000, Fin 30000, Fin 15000, Fin 12000, Fin 18000]"
  by (simp add: mapIndexed_def USER_PORTFOLIO_CONFIG_def liveInvestment_def
      getFallbackInvestment_def Let_def
      upt_rec [of 0] upt_rec [of 1] upt_rec [of 2] upt_rec [of 3] upt_rec [of 4] upt_rec [of 5]
      split: option.split)

lemma sumOf_map: "sumOf f xs = foldl nadd (Fin 0) (map f xs)"
  by (simp add: sumOf_def foldl_map)

text \<open>
  The investments that \<open>getRealTimeInvestments\<close> builds, live or fallback, carry the
  purchase values of the configuration: their total is 90000, a number above 0.
\<close>

lemma built_purchase_total:
  assumes "investmentCache st = None"
    and "getRealTimeInvestments st now resolved now' = Inr (investments, st')"
  shows "totalPurchaseValue (useInvestments investments) = Fin 90000"
proof -
  have "map purchaseValue investments = [Fin 15000, Fin 30000, Fin 15000, Fin 12000, Fin 18000]"
    using assms built_purchaseValue
    by (auto simp add: getRealTimeInvestments_def getRealTimeInvestments_body_def Let_def)
  then show ?thesis
    by (simp add: useInvestments_def sumOf_map Let_def)
qed

lemma fallback_totals:
  "totalPurchaseValue (useInvestments getFallbackInvestments) = Fin 90000"
  "totalValue (useInvestments getFallbackInvestments) = Fin 95059.1"
  by (simp_all add: useInvestments_def sumOf_def getFallbackInvestments_def mapIndexed_def
      USER_PORTFOLIO_CONFIG_def getFallbackInvestment_def fallbackPrices_def Let_def str_def
      upt_rec [of 0] upt_rec [of 1] upt_rec [of 2] upt_rec [of 3] upt_rec [of 4] upt_rec [of 5])

text \<open>
  Claim C10. \<open>useInvestments\<close> returns 0 as \<open>totalGainLossPercent\<close> when the total purchase
  value is at most 0 (also when it is NaN), and the quotient of the total gain by the
  total purchase value, times 100, when the total purchase value is above 0; for the empty
  list it returns 0. \<open>usePortfolio\<close> returns 0 as \<open>changePercent\<close> when the series has no
  last-but-one point or when that point is at most 0; for the empty series it returns 0.
\<close>

theorem percent_guards:
  "(nle (totalPurchaseValue (useInvestments investments)) (Fin 0)
      \<longrightarrow> totalGainLossPercent (useInvestments investments) = Fin 0)
   \<and> (ngreater (totalPurchaseValue (useInvestments investments)) (Fin 0)
      \<longrightarrow> totalGainLossPercent (useInvestments investments)
          = nmul (ndiv (nsub (totalValue (useInvestments investments))
                             (totalPurchaseValue (useInvestments investments)))
                       (totalPurchaseValue (useInvestments investments))) (Fin 100))
   \<and> (totalPurchaseValue (useInvestments investments) = NaN
      \<longrightarrow> totalGainLossPercent (useInvestments investments) = Fin 0)
   \<and> totalGainLossPercent (useInvestments []) = Fin 0
   \<and> ((length pdata < 2 \<or> nle (pdata ! (length pdata - 2)) (Fin 0))
      \<longrightarrow> portfolio_changePercent (usePortfolio pdata) = Fin 0)
   \<and> portfolio_changePercent (usePortfolio []) = Fin 0"
proof -
  have a: "nle x (Fin 0) \<Longrightarrow> \<not> ngreater x (Fin 0)" for x
    by (cases x) (auto simp: nle_def ngreater_def)
  have b: "\<not> ngreater (orZero v) (Fin 0)" if "v = None \<or> (\<exists>x. v = Some x \<and> nle x (Fin 0))" for v
    using that a by (cases v) (auto simp: ngreater_def)
  have c: "length pdata < 2 \<or> nle (pdata ! (length pdata - 2)) (Fin 0) \<Longrightarrow>
    index_js pdata (int (length pdata) - 2) = None
    \<or> (\<exists>x. index_js pdata (int (length pdata) - 2) = Some x \<and> nle x (Fin 0))"
    by (auto simp: index_js_def nat_diff_distrib)
  show ?thesis
    using a b c
    by (simp add: useInvestments_def usePortfolio_def sumOf_def Let_def ngreater_def index_js_def)
qed

theorem percent_guards_witness:
  "nle (totalPurchaseValue (useInvestments [])) (Fin 0)
   \<and> totalGainLossPercent (useInvestments []) = Fin 0
   \<and> ngreater (totalPurchaseValue (useInvestments getFallbackInvestments)) (Fin 0)
   \<and> totalGainLossPercent (useInvestments getFallbackInvestments)
       = nmul (ndiv (nsub (Fin 95059.1) (Fin 90000)) (Fin 90000)) (Fin 100)
   \<and> totalPurchaseValue (useInvestments [nanInvestment]) = NaN
   \<and> totalGainLossPercent (useInvestments [nanInvestment]) = Fin 0
   \<and> length [Fin 82] < 2
   \<and> portfolio_changePercent (usePortfolio [Fin 82]) = Fin 0
   \<and> nle ([Fin 0, Fin 82] ! (length [Fin 0, Fin 82] - 2)) (Fin 0)
   \<and> portfolio_changePercent (usePortfolio [Fin 0, Fin 82]) = Fin 0"
proof -
  have e: "totalPurchaseValue (useInvestments []) = Fin 0"
    by (simp add: useInvestments_def sumOf_def Let_def)
  have n: "totalPurchaseValue (useInvestments [nanInvestment]) = NaN"
    by (simp add: useInvestments_def sumOf_def nanInvestment_def Let_def)
  show ?thesis
    using percent_guards [of "[]" "[Fin 82]"]
      percent_guards [of getFallbackInvestments "[Fin 0, Fin 82]"]
      percent_guards [of "[nanInvestment]" "[]"] e n
    by (simp add: fallback_totals nle_def ngreater_def)
qed

end
